theory Spec2Isabelle
  imports Complex_Main
begin

section \<open>JavaScript values used by the cache and the synchronizer\<close>

text \<open>
  Strings are lists of code units below 256, the Latin-1 range. Numbers that the code only uses as integers (UIDs,
  sequence numbers, counts, millisecond timestamps) are \<open>nat\<close> or \<open>int\<close>; the one
  fractional computation, \<open>Math.ceil(messagesPerPage * 1.5)\<close>, is done over the reals.
  A thrown \<open>Error\<close> is a value of type \<open>js_error\<close> carried in the left summand.
\<close>

datatype js_error = JsError string

text \<open>\<open>s || d\<close> on strings: the empty string is falsy.\<close>

definition or_else :: "string \<Rightarrow> string \<Rightarrow> string" where
  "or_else s d = (if s = [] then d else s)"

text \<open>\<open>xs.join(',')\<close> and \<open>s.split(',')\<close>.\<close>

fun join_with :: "char \<Rightarrow> string list \<Rightarrow> string" where
  "join_with c [] = []"
| "join_with c [x] = x"
| "join_with c (x # y # ys) = x @ c # join_with c (y # ys)"

fun split_on :: "char \<Rightarrow> string \<Rightarrow> string list" where
  "split_on c [] = [[]]"
| "split_on c (x # xs) =
     (if x = c then [] # split_on c xs
      else (case split_on c xs of [] \<Rightarrow> [[x]] | w # ws \<Rightarrow> (x # w) # ws))"

text \<open>\<open>s.substring(0, n)\<close>, \<open>s.replace(/\n/g, ' ')\<close> and \<open>s.trim()\<close>.\<close>

definition substring0 :: "nat \<Rightarrow> string \<Rightarrow> string" where
  "substring0 n s = take n s"

definition replace_newlines :: "string \<Rightarrow> string" where
  "replace_newlines s = map (\<lambda>c. if c = CHR 0x0A then CHR '' '' else c) s"

definition is_js_space :: "char \<Rightarrow> bool" where
  "is_js_space c = (c \<in> {CHR 0x09, CHR 0x0A, CHR 0x0B, CHR 0x0C, CHR 0x0D, CHR '' '', CHR 0xA0})"

definition trim :: "string \<Rightarrow> string" where
  "trim s = rev (dropWhile is_js_space (rev (dropWhile is_js_space s)))"

text \<open>
  \<open>s.toUpperCase()\<close>, the default Unicode upper-casing, on the Latin-1 range: the letters
  \<open>a\<close> to \<open>z\<close> (97 to 122) and those from 224 to 254 other than the division sign 247
  have their capital 32 below, and the sharp s (223) becomes \<open>SS\<close>. The capitals of the
  micro sign (181) and of the y with diaeresis (255) are U+039C and U+0178, outside the
  range: these two characters stand for their own capitals, which no other character of
  the range is mapped to, so that two upper-cased strings are equal here exactly when
  they are equal in the code.
\<close>

definition upper_char :: "char \<Rightarrow> string" where
  "upper_char c =
     (let n = (of_char c :: nat)
      in if (97 \<le> n \<and> n \<le> 122) \<or> (224 \<le> n \<and> n \<le> 254 \<and> n \<noteq> 247) then [char_of (n - 32)]
         else if n = 223 then ''SS''
         else [c])"

definition toUpperCase :: "string \<Rightarrow> string" where
  "toUpperCase s = concat (map upper_char s)"

text \<open>\<open>n.toString()\<close> for a non-negative integer.\<close>

fun toString :: "nat \<Rightarrow> string" where
  "toString n =
     (if n < 10 then [char_of (48 + n)] else toString (n div 10) @ [char_of (48 + n mod 10)])"

declare toString.simps [simp del]

text \<open>\<open>xs.slice(0, n)\<close>: a negative \<open>n\<close> counts from the end.\<close>

definition slice0 :: "int \<Rightarrow> 'a list \<Rightarrow> 'a list" where
  "slice0 n xs = (if 0 \<le> n then take (nat n) xs else take (length xs - nat (- n)) xs)"

section \<open>Data model (types/email.ts)\<close>

record EmailAddress =
  name :: "string option"
  address :: string

text \<open>The \<open>content\<close> buffer of an attachment is never read by the cache and is left out.\<close>

record Attachment =
  filename :: string
  contentType :: string
  size_att :: nat
  contentId :: "string option"

record EmailMessage =
  id_msg :: string
  accountId :: string
  folder :: string
  uid :: "nat option"
  messageId :: string
  from_addrs :: "EmailAddress list"
  to_addrs :: "EmailAddress list"
  cc :: "EmailAddress list option"
  bcc :: "EmailAddress list option"
  subject :: string
  date :: int
  body_text :: "string option"
  body_html :: "string option"
  attachments :: "Attachment list option"
  flags :: "string list"
  references :: "string list option"

record EmailAccount =
  id_acc :: string
  email :: string

record EmailFolder =
  name_fld :: string
  displayName :: string

section \<open>Local store (services/cacheService.ts)\<close>

record CachedMessage =
  row_id :: nat
  row_uid :: nat
  folder_id :: string
  account_id :: string
  row_subject :: string
  from_name :: string
  from_address :: string
  row_date :: int
  row_flags :: string
  preview :: string
  has_attachments :: nat
  thread_count :: nat
  last_fetched :: int

record AttachmentRow =
  att_id :: nat
  message_uid :: nat
  att_folder_id :: string
  att_account_id :: string
  att_filename :: string
  content_type :: string
  att_size :: nat
  content_id :: "string option"

record FolderRow =
  fld_id :: string
  fld_account_id :: string
  fld_name :: string
  last_sync :: int
  total_count :: int
  unread_count :: int

text \<open>
  The opened database: the three tables the service writes, in rowid order, the two
  AUTOINCREMENT counters, and whether the engine enforces foreign keys. The source sets
  no \<open>foreign_keys\<close> pragma, so enforcement is whatever the engine was built with; the
  schema declares \<open>attachments(message_uid, folder_id, account_id)\<close> as a foreign key
  into \<open>messages\<close> with \<open>ON DELETE CASCADE\<close>.
\<close>

record Database =
  messages :: "CachedMessage list"
  folders :: "FolderRow list"
  attachment_rows :: "AttachmentRow list"
  messages_seq :: nat
  attachments_seq :: nat
  foreign_keys :: bool

text \<open>The service is its field \<open>db: Database | null\<close>.\<close>

type_synonym CacheService = "Database option"

definition empty_database :: "bool \<Rightarrow> Database" where
  "empty_database fk =
     \<lparr>messages = [], folders = [], attachment_rows = [],
      messages_seq = 0, attachments_seq = 0, foreign_keys = fk\<rparr>"

text \<open>
  \<open>initializeDatabase\<close>: any failure of creating the directory, opening the file, setting
  its mode or creating the tables is caught and leaves \<open>db = null\<close>. The outcome of these
  file-system steps is the argument: the database that was opened, or the error.
\<close>

definition initializeDatabase :: "js_error + Database \<Rightarrow> CacheService" where
  "initializeDatabase opened = (case opened of Inl e \<Rightarrow> None | Inr db \<Rightarrow> Some db)"

definition in_folder :: "string \<Rightarrow> string \<Rightarrow> CachedMessage \<Rightarrow> bool" where
  "in_folder folderId accId r = (folder_id r = folderId \<and> account_id r = accId)"

definition att_of :: "nat \<Rightarrow> string \<Rightarrow> string \<Rightarrow> AttachmentRow \<Rightarrow> bool" where
  "att_of u folderId accId a =
     (message_uid a = u \<and> att_folder_id a = folderId \<and> att_account_id a = accId)"

text \<open>\<open>ORDER BY date DESC\<close>; rows with equal dates stay in rowid order.\<close>

definition order_by_date_desc :: "CachedMessage list \<Rightarrow> CachedMessage list" where
  "order_by_date_desc rows = sort_key (\<lambda>r. - row_date r) rows"

text \<open>\<open>LIMIT ? OFFSET ?\<close>: a negative limit is no limit, a negative offset is 0.\<close>

definition limit_offset :: "int \<Rightarrow> int \<Rightarrow> 'a list \<Rightarrow> 'a list" where
  "limit_offset lmt ofs xs =
     (let ys = drop (nat ofs) xs in if lmt < 0 then ys else take (nat lmt) ys)"

definition cachedAttachment :: "AttachmentRow \<Rightarrow> Attachment" where
  "cachedAttachment a =
     \<lparr>filename = att_filename a, contentType = content_type a, size_att = att_size a,
      contentId = (case content_id a of None \<Rightarrow> None
                   | Some c \<Rightarrow> if c = [] then None else Some c)\<rparr>"

definition cachedMessageToEmailMessage ::
  "CachedMessage \<Rightarrow> AttachmentRow list \<Rightarrow> EmailMessage" where
  "cachedMessageToEmailMessage cached atts =
     \<lparr>id_msg = toString (row_uid cached),
      accountId = account_id cached,
      folder = folder_id cached,
      uid = Some (row_uid cached),
      messageId = [],
      from_addrs = [\<lparr>name = (if from_name cached = [] then None else Some (from_name cached)),
                     address = from_address cached\<rparr>],
      to_addrs = [],
      cc = Some [],
      bcc = Some [],
      subject = row_subject cached,
      date = row_date cached,
      body_text = Some (preview cached),
      body_html = None,
      attachments = (if atts \<noteq> [] then Some (map cachedAttachment atts) else None),
      flags = (if row_flags cached \<noteq> [] then split_on CHR '','' (row_flags cached) else []),
      references = (if thread_count cached > 0 then Some [] else None)\<rparr>"

text \<open>
  \<open>getCachedMessages\<close>: the page of rows of one folder, newest first, each joined with
  its attachment rows. Without a database the result is empty.
\<close>

definition getCachedMessages ::
  "CacheService \<Rightarrow> string \<Rightarrow> string \<Rightarrow> int \<Rightarrow> int \<Rightarrow> EmailMessage list" where
  "getCachedMessages cs folderId accId lmt ofs =
     (case cs of None \<Rightarrow> []
      | Some db \<Rightarrow>
          map (\<lambda>row. cachedMessageToEmailMessage row
                       (filter (att_of (row_uid row) folderId accId) (attachment_rows db)))
              (limit_offset lmt ofs
                 (order_by_date_desc (filter (in_folder folderId accId) (messages db)))))"

text \<open>
  One \<open>DELETE FROM messages WHERE ...\<close>: the rows matching \<open>P\<close> go, and under foreign-key
  enforcement so do the attachment rows that reference a deleted row.
\<close>

definition references_row :: "AttachmentRow \<Rightarrow> CachedMessage \<Rightarrow> bool" where
  "references_row a r =
     (message_uid a = row_uid r \<and> att_folder_id a = folder_id r \<and> att_account_id a = account_id r)"

definition delete_messages :: "(CachedMessage \<Rightarrow> bool) \<Rightarrow> Database \<Rightarrow> Database" where
  "delete_messages P db =
     (let gone = filter P (messages db) in
      db\<lparr>messages := filter (\<lambda>r. \<not> P r) (messages db),
         attachment_rows :=
           (if foreign_keys db
            then filter (\<lambda>a. \<not> list_ex (references_row a) gone) (attachment_rows db)
            else attachment_rows db)\<rparr>)"

text \<open>
  \<open>INSERT OR REPLACE INTO messages\<close>: the row with the same \<open>(uid, folder_id, account_id)\<close>
  is deleted first, the new row takes the next AUTOINCREMENT id.
\<close>

definition same_key :: "nat \<Rightarrow> string \<Rightarrow> string \<Rightarrow> CachedMessage \<Rightarrow> bool" where
  "same_key u folderId accId r = (row_uid r = u \<and> in_folder folderId accId r)"

definition insert_or_replace_message :: "CachedMessage \<Rightarrow> Database \<Rightarrow> Database" where
  "insert_or_replace_message r db =
     (let db1 = delete_messages (same_key (row_uid r) (folder_id r) (account_id r)) db;
          n = Suc (messages_seq db1)
      in db1\<lparr>messages := messages db1 @ [r\<lparr>row_id := n\<rparr>], messages_seq := n\<rparr>)"

definition delete_attachments :: "nat \<Rightarrow> string \<Rightarrow> string \<Rightarrow> Database \<Rightarrow> Database" where
  "delete_attachments u folderId accId db =
     db\<lparr>attachment_rows := filter (\<lambda>a. \<not> att_of u folderId accId a) (attachment_rows db)\<rparr>"

definition insert_attachment :: "AttachmentRow \<Rightarrow> Database \<Rightarrow> Database" where
  "insert_attachment a db =
     (let n = Suc (attachments_seq db)
      in db\<lparr>attachment_rows := attachment_rows db @ [a\<lparr>att_id := n\<rparr>], attachments_seq := n\<rparr>)"

text \<open>The preview column: \<open>text.substring(0, 200).replace(/\n/g, ' ').trim()\<close>, or empty.\<close>

definition make_preview :: "string option \<Rightarrow> string" where
  "make_preview t =
     (case t of None \<Rightarrow> []
      | Some s \<Rightarrow> if s = [] then [] else trim (replace_newlines (substring0 200 s)))"

definition message_row :: "EmailMessage \<Rightarrow> nat \<Rightarrow> string \<Rightarrow> string \<Rightarrow> int \<Rightarrow> CachedMessage" where
  "message_row msg u folderId accId now =
     \<lparr>row_id = 0,
      row_uid = u,
      folder_id = folderId,
      account_id = accId,
      row_subject = or_else (subject msg) ''(No subject)'',
      from_name = (case from_addrs msg of [] \<Rightarrow> []
                   | a # _ \<Rightarrow> (case name a of None \<Rightarrow> [] | Some n \<Rightarrow> n)),
      from_address = (case from_addrs msg of [] \<Rightarrow> [] | a # _ \<Rightarrow> address a),
      row_date = date msg,
      row_flags = join_with CHR '','' (flags msg),
      preview = make_preview (body_text msg),
      has_attachments = (case attachments msg of None \<Rightarrow> 0
                         | Some as \<Rightarrow> if as \<noteq> [] then 1 else 0),
      thread_count = (case references msg of None \<Rightarrow> 0 | Some rs \<Rightarrow> length rs),
      last_fetched = now\<rparr>"

definition attachment_row :: "Attachment \<Rightarrow> nat \<Rightarrow> string \<Rightarrow> string \<Rightarrow> AttachmentRow" where
  "attachment_row att u folderId accId =
     \<lparr>att_id = 0,
      message_uid = u,
      att_folder_id = folderId,
      att_account_id = accId,
      att_filename = or_else (filename att) ''unnamed'',
      content_type = or_else (contentType att) ''application/octet-stream'',
      att_size = size_att att,
      content_id = (case contentId att of None \<Rightarrow> None
                    | Some c \<Rightarrow> if c = [] then None else Some c)\<rparr>"

text \<open>
  The body of the transaction for one message. A message without a \<open>uid\<close> cannot be bound
  to the statement: the statement throws, which is the value \<open>None\<close>.
\<close>

definition upsert_message ::
  "string \<Rightarrow> string \<Rightarrow> int \<Rightarrow> EmailMessage \<Rightarrow> Database \<Rightarrow> Database option" where
  "upsert_message folderId accId now msg db =
     (case uid msg of None \<Rightarrow> None
      | Some u \<Rightarrow>
          (let db1 = insert_or_replace_message (message_row msg u folderId accId now) db;
               db2 = delete_attachments u folderId accId db1
           in Some (case attachments msg of None \<Rightarrow> db2
                    | Some as \<Rightarrow>
                        fold (\<lambda>att. insert_attachment (attachment_row att u folderId accId)) as db2)))"

fun upsert_all ::
  "string \<Rightarrow> string \<Rightarrow> int \<Rightarrow> EmailMessage list \<Rightarrow> Database \<Rightarrow> Database option" where
  "upsert_all folderId accId now [] db = Some db"
| "upsert_all folderId accId now (msg # msgs) db =
     (case upsert_message folderId accId now msg db of None \<Rightarrow> None
      | Some db1 \<Rightarrow> upsert_all folderId accId now msgs db1)"

text \<open>
  \<open>updateMessages\<close>: one transaction over the whole list, stamped with one \<open>Date.now()\<close>;
  a throw inside rolls the transaction back and is only logged.
\<close>

definition updateMessages ::
  "CacheService \<Rightarrow> EmailMessage list \<Rightarrow> string \<Rightarrow> string \<Rightarrow> int \<Rightarrow> CacheService" where
  "updateMessages cs msgs folderId accId now =
     (case cs of None \<Rightarrow> None
      | Some db \<Rightarrow>
          (case upsert_all folderId accId now msgs db of None \<Rightarrow> Some db
           | Some db1 \<Rightarrow> Some db1))"

text \<open>\<open>getLastSyncTime\<close>: \<open>MAX(last_fetched)\<close> of the folder; no rows, or a maximum of 0, is null.\<close>

definition getLastSyncTime :: "CacheService \<Rightarrow> string \<Rightarrow> string \<Rightarrow> int option" where
  "getLastSyncTime cs folderId accId =
     (case cs of None \<Rightarrow> None
      | Some db \<Rightarrow>
          (case map last_fetched (filter (in_folder folderId accId) (messages db)) of
             [] \<Rightarrow> None
           | t # ts \<Rightarrow> (let m = fold max ts t in if m = 0 then None else Some m)))"

definition folder_key :: "string \<Rightarrow> string \<Rightarrow> string" where
  "folder_key accId folderId = accId @ '':'' @ folderId"

definition updateFolderMetadata ::
  "CacheService \<Rightarrow> string \<Rightarrow> string \<Rightarrow> int \<Rightarrow> int \<Rightarrow> int \<Rightarrow> CacheService" where
  "updateFolderMetadata cs folderId accId totalCount unreadCount now =
     (case cs of None \<Rightarrow> None
      | Some db \<Rightarrow>
          Some (db\<lparr>folders :=
                  filter (\<lambda>f. fld_id f \<noteq> folder_key accId folderId) (folders db) @
                  [\<lparr>fld_id = folder_key accId folderId, fld_account_id = accId,
                    fld_name = folderId, last_sync = now,
                    total_count = totalCount, unread_count = unreadCount\<rparr>]\<rparr>))"

definition clearFolder :: "CacheService \<Rightarrow> string \<Rightarrow> string \<Rightarrow> CacheService" where
  "clearFolder cs folderId accId =
     (case cs of None \<Rightarrow> None
      | Some db \<Rightarrow> Some (delete_messages (in_folder folderId accId) db))"

definition clearAllCache :: "CacheService \<Rightarrow> CacheService" where
  "clearAllCache cs =
     (case cs of None \<Rightarrow> None
      | Some db \<Rightarrow> Some ((delete_messages (\<lambda>r. True) db)\<lparr>folders := []\<rparr>))"

text \<open>\<open>getFolderMetadata\<close>: the counts of the row whose id is \<open>accountId:folderId\<close>.\<close>

definition getFolderMetadata :: "CacheService \<Rightarrow> string \<Rightarrow> string \<Rightarrow> (int \<times> int) option" where
  "getFolderMetadata cs folderId accId =
     (case cs of None \<Rightarrow> None
      | Some db \<Rightarrow>
          (case find (\<lambda>f. fld_id f = folder_key accId folderId) (folders db) of
             None \<Rightarrow> None
           | Some row \<Rightarrow> Some (total_count row, unread_count row)))"

definition updateMessageFlags ::
  "CacheService \<Rightarrow> nat \<Rightarrow> string \<Rightarrow> string \<Rightarrow> string list \<Rightarrow> CacheService" where
  "updateMessageFlags cs u folderId accId fs =
     (case cs of None \<Rightarrow> None
      | Some db \<Rightarrow>
          Some (db\<lparr>messages :=
                  map (\<lambda>r. if same_key u folderId accId r
                           then r\<lparr>row_flags := join_with CHR '','' fs\<rparr> else r)
                      (messages db)\<rparr>))"

text \<open>\<open>getCacheStats\<close>, without the size of the file.\<close>

definition getCacheStats :: "CacheService \<Rightarrow> nat \<times> int option" where
  "getCacheStats cs =
     (case cs of None \<Rightarrow> (0, None)
      | Some db \<Rightarrow>
          (length (messages db),
           (case map last_fetched (messages db) of [] \<Rightarrow> None
            | t # ts \<Rightarrow> (let m = fold min ts t in if m = 0 then None else Some m))))"

section \<open>Remote mailbox client (services/imapService.ts, services/emailService.ts)\<close>

text \<open>
  The IMAP connection is an external collaborator and is given by its answers: what
  \<open>openBox\<close> yields for a folder, what a \<open>search\<close> in the opened folder yields, and the
  list of parsed messages a sequence fetch has assembled when its \<open>end\<close> event fires.
  A sequence range is \<open>start:end\<close> or the open-ended \<open>start:*\<close>.
\<close>

record Box =
  messages_total :: "nat option"
  messages_new :: "nat option"

datatype criteria = SearchAll | SearchUnseen

datatype seq_range = Closed int int | From int

record Imap =
  openBox :: "string \<Rightarrow> js_error + Box"
  search :: "string \<Rightarrow> criteria \<Rightarrow> js_error + nat list option"
  seq_fetch :: "string \<Rightarrow> seq_range \<Rightarrow> js_error + EmailMessage list"
  getBoxes :: "js_error + EmailFolder list"

record ImapService =
  imap :: "Imap option"

definition not_connected :: js_error where
  "not_connected = JsError ''Not connected''"

text \<open>\<open>n || 0\<close> on a count that may be undefined.\<close>

definition or_zero :: "nat option \<Rightarrow> nat" where
  "or_zero n = (case n of None \<Rightarrow> 0 | Some k \<Rightarrow> k)"

definition result_count :: "nat list option \<Rightarrow> nat" where
  "result_count rs = (case rs of None \<Rightarrow> 0 | Some xs \<Rightarrow> length xs)"

definition ImapService_getFolderStatus :: "ImapService \<Rightarrow> string \<Rightarrow> js_error + (nat \<times> nat)" where
  "ImapService_getFolderStatus svc fld =
     (case imap svc of None \<Rightarrow> Inl not_connected
      | Some c \<Rightarrow>
          (case openBox c fld of Inl err \<Rightarrow> Inl err
           | Inr box \<Rightarrow>
               (case search c fld SearchAll of
                  Inl searchErr \<Rightarrow> Inr (or_zero (messages_total box), or_zero (messages_new box))
                | Inr allResults \<Rightarrow>
                    (let actualTotal = result_count allResults in
                     case search c fld SearchUnseen of
                       Inl unseenErr \<Rightarrow> Inr (actualTotal, or_zero (messages_new box))
                     | Inr unseenResults \<Rightarrow> Inr (actualTotal, result_count unseenResults)))))"

definition ImapService_getFolders :: "ImapService \<Rightarrow> js_error + EmailFolder list" where
  "ImapService_getFolders svc =
     (case imap svc of None \<Rightarrow> Inl not_connected | Some c \<Rightarrow> getBoxes c)"

text \<open>\<open>fetchBySequence\<close>: without a range, the last 50 sequence numbers of the opened box.\<close>

definition fetchBySequence ::
  "Imap \<Rightarrow> Box \<Rightarrow> string \<Rightarrow> seq_range option \<Rightarrow> js_error + EmailMessage list" where
  "fetchBySequence c box fld sequenceRange =
     seq_fetch c fld
       (case sequenceRange of Some r \<Rightarrow> r
        | None \<Rightarrow> From (max 1 (int (or_zero (messages_total box)) - 50 + 1)))"

text \<open>\<open>messages.sort((a, b) => b.date.getTime() - a.date.getTime())\<close>: a stable sort.\<close>

definition sort_by_date_desc :: "EmailMessage list \<Rightarrow> EmailMessage list" where
  "sort_by_date_desc msgs = sort_key (\<lambda>m. - date m) msgs"

definition ImapService_getMessages ::
  "ImapService \<Rightarrow> string \<Rightarrow> int \<Rightarrow> seq_range option \<Rightarrow> js_error + EmailMessage list" where
  "ImapService_getMessages svc fld limit sequenceRange =
     (case imap svc of None \<Rightarrow> Inl not_connected
      | Some c \<Rightarrow>
          (case openBox c fld of Inl err \<Rightarrow> Inl err
           | Inr box \<Rightarrow>
               (case sequenceRange of
                  Some r \<Rightarrow>
                    (case fetchBySequence c box fld (Some r) of Inl err \<Rightarrow> Inl err
                     | Inr msgs \<Rightarrow> Inr (sort_by_date_desc msgs))
                | None \<Rightarrow> fetchBySequence c box fld None)))"

text \<open>
  \<open>EmailService\<close>: \<open>getImapService(accountId)\<close> yields the connected service of the
  account, or throws (unknown account, failed connection).
\<close>

type_synonym EmailService = "string \<Rightarrow> js_error + ImapService"

definition EmailService_getFolders :: "EmailService \<Rightarrow> string \<Rightarrow> js_error + EmailFolder list" where
  "EmailService_getFolders es accId =
     (case es accId of Inl err \<Rightarrow> Inl err | Inr svc \<Rightarrow> ImapService_getFolders svc)"

definition EmailService_getFolderStatus ::
  "EmailService \<Rightarrow> string \<Rightarrow> string \<Rightarrow> js_error + (nat \<times> nat)" where
  "EmailService_getFolderStatus es accId fld =
     (case es accId of Inl err \<Rightarrow> Inl err | Inr svc \<Rightarrow> ImapService_getFolderStatus svc fld)"

definition EmailService_getMessages ::
  "EmailService \<Rightarrow> string \<Rightarrow> string \<Rightarrow> int \<Rightarrow> seq_range option \<Rightarrow> js_error + EmailMessage list" where
  "EmailService_getMessages es accId fld limit sequenceRange =
     (case es accId of Inl err \<Rightarrow> Inl err
      | Inr svc \<Rightarrow>
          (case ImapService_getMessages svc fld limit sequenceRange of Inl err \<Rightarrow> Inl err
           | Inr msgs \<Rightarrow> Inr (map (\<lambda>msg. msg\<lparr>accountId := accId, folder := fld\<rparr>) msgs)))"

section \<open>Page load (components/MessageList.tsx)\<close>

text \<open>
  What a page load does beyond its result is kept as a trace: every call to the store and
  to the remote client with the folder key it was given, every refresh request and the
  defensive range error. The clock is read several times during one load; one load is
  short, and the model takes every reading of one load to be the same instant \<open>now\<close>.
\<close>

datatype event =
    RefreshRequested
  | CacheGetMessages string string int int
  | CacheGetLastSyncTime string string
  | CacheGetFolderMetadata string string
  | CacheUpdateMessages string string "EmailMessage list"
  | CacheUpdateFolderMetadata string string int int
  | RemoteGetFolders string
  | RemoteGetFolderStatus string string
  | RemoteGetMessages string string int seq_range
  | InvalidSequenceRange int int

text \<open>
  The props and settings a load reads. \<open>messagesPerPage\<close> comes from the settings file;
  the setter bounds it to 1..100.
\<close>

record Props =
  folder_prop :: string
  account_prop :: "string option"
  emailAccounts :: "EmailAccount list"
  messagesPerPage :: int
  autoRefreshEnabled :: bool
  autoRefreshInterval :: int
  isRefreshing :: bool
  onRefreshRequest :: bool

text \<open>
  The component state a load reads and writes. The displayed \<open>Message\<close> keeps its
  \<open>EmailMessage\<close> as \<open>_original\<close>; the model keeps the originals, in display order.
  The in-memory \<open>_messageCache\<close> is written and never read, and is left out.
\<close>

record ListState =
  shown :: "EmailMessage list"
  totalMessages :: int
  currentPage :: int
  isChangingPage :: bool
  loading :: bool
  error_msg :: "js_error option"
  isFromCache :: bool
  lastSyncTime :: "int option"

record World =
  state :: ListState
  cache :: CacheService
  events :: "event list"

definition emit :: "event \<Rightarrow> World \<Rightarrow> World" where
  "emit e w = w\<lparr>events := events w @ [e]\<rparr>"

definition setMessages :: "EmailMessage list \<Rightarrow> World \<Rightarrow> World" where
  "setMessages ms w = w\<lparr>state := (state w)\<lparr>shown := ms\<rparr>\<rparr>"

definition setTotalMessages :: "int \<Rightarrow> World \<Rightarrow> World" where
  "setTotalMessages n w = w\<lparr>state := (state w)\<lparr>totalMessages := n\<rparr>\<rparr>"

definition findAccount :: "EmailAccount list \<Rightarrow> string \<Rightarrow> EmailAccount option" where
  "findAccount accs a = find (\<lambda>acc. email acc = a) accs"

subsection \<open>Folder-name resolution\<close>

definition folder_matches :: "string \<Rightarrow> string \<Rightarrow> bool" where
  "folder_matches normalizedFolder normalized =
     (normalized = normalizedFolder \<or>
      (normalizedFolder = ''SENT'' \<and>
         (normalized = ''SENT MAIL'' \<or> normalized = ''SENT MESSAGES'')) \<or>
      (normalizedFolder = ''DELETED'' \<and>
         (normalized = ''DELETED MESSAGES'' \<or> normalized = ''DELETED ITEMS'')) \<or>
      (normalizedFolder = ''JUNK'' \<and>
         (normalized = ''JUNK E-MAIL'' \<or> normalized = ''JUNK MAIL'')) \<or>
      (normalizedFolder = ''TRASH'' \<and> normalized = ''DELETED''))"

text \<open>The loop over the account's folders: the first match wins, no match keeps the name.\<close>

fun actualFolderName :: "string \<Rightarrow> EmailFolder list \<Rightarrow> string" where
  "actualFolderName fld [] = fld"
| "actualFolderName fld (f # fs) =
     (if folder_matches (toUpperCase fld) (toUpperCase (name_fld f)) then name_fld f
      else actualFolderName fld fs)"

subsection \<open>Sequence window of a page\<close>

definition endSeq :: "int \<Rightarrow> int \<Rightarrow> int \<Rightarrow> int" where
  "endSeq tot page pageSize = max 1 (tot - (page - 1) * pageSize)"

definition bufferSize :: "int \<Rightarrow> int" where
  "bufferSize pageSize = \<lceil>real_of_int pageSize * 1.5\<rceil>"

definition startSeq :: "int \<Rightarrow> int \<Rightarrow> int" where
  "startSeq endS pageSize = max 1 (endS - bufferSize pageSize + 1)"

text \<open>
  A step of the remote path yields the world it has reached and, when it threw, the error.
\<close>

type_synonym outcome = "World \<times> js_error option"

text \<open>
  The fetch of one window, from the range check on: an inverted range is reported and shows
  nothing; otherwise the window is fetched, cut to the page size, shown, and written to the
  store together with the folder total.
\<close>

definition fetchWindow ::
  "EmailService \<Rightarrow> int \<Rightarrow> string \<Rightarrow> string \<Rightarrow> int \<Rightarrow> int \<Rightarrow> int \<Rightarrow> int \<Rightarrow> World
     \<Rightarrow> outcome" where
  "fetchWindow es now accId actual pageSize actualTotal startS endS w =
     (if startS > endS then (setMessages [] (emit (InvalidSequenceRange startS endS) w), None)
      else
        (let w1 = emit (RemoteGetMessages accId actual pageSize (Closed startS endS)) w in
         case EmailService_getMessages es accId actual pageSize (Some (Closed startS endS)) of
           Inl err \<Rightarrow> (w1, Some err)
         | Inr pageMessages \<Rightarrow>
             (let messagesForPage = slice0 pageSize pageMessages;
                  w2 = setMessages messagesForPage w1
              in (if messagesForPage \<noteq> []
                  then (emit (CacheUpdateFolderMetadata actual accId actualTotal 0)
                         (emit (CacheUpdateMessages actual accId messagesForPage) w2))
                       \<lparr>cache :=
                          updateFolderMetadata
                            (updateMessages (cache w2) messagesForPage actual accId now)
                            actual accId actualTotal 0 now,
                        state := (state w2)\<lparr>lastSyncTime := Some now\<rparr>\<rparr>
                  else w2, None))))"

text \<open>The remote page fetch, from the folder total on.\<close>

definition fetchPage ::
  "EmailService \<Rightarrow> int \<Rightarrow> string \<Rightarrow> string \<Rightarrow> int \<Rightarrow> int \<Rightarrow> int \<Rightarrow> World \<Rightarrow> outcome" where
  "fetchPage es now accId actual pageSize page actualTotal w =
     (if actualTotal = 0 then (setMessages [] w, None)
      else
        (let endS = endSeq actualTotal page pageSize;
             startS = startSeq endS pageSize
         in fetchWindow es now accId actual pageSize actualTotal startS endS w))"

text \<open>
  The body of the \<open>try\<close> of the remote path. \<open>total0\<close> and \<open>page\<close> are the values of
  \<open>totalMessages\<close> and \<open>currentPage\<close> the load was started with. A failed
  \<open>getFolderStatus\<close> falls back to the last known total, or to 100 when none is known.
\<close>

definition account_not_found :: "string \<Rightarrow> js_error" where
  "account_not_found a = JsError (''Account '' @ a @ '' not found'')"

definition loadFromImapBody ::
  "Props \<Rightarrow> EmailService \<Rightarrow> int \<Rightarrow> string \<Rightarrow> int \<Rightarrow> int \<Rightarrow> World \<Rightarrow> outcome" where
  "loadFromImapBody p es now acct total0 page w =
     (case findAccount (emailAccounts p) acct of
        None \<Rightarrow> (w, Some (account_not_found acct))
      | Some emailAccount \<Rightarrow>
          (let accId = id_acc emailAccount;
               w1 = emit (RemoteGetFolders accId) w
           in case EmailService_getFolders es accId of
                Inl err \<Rightarrow> (w1, Some err)
              | Inr fs \<Rightarrow>
                  (let actual = actualFolderName (folder_prop p) fs;
                       w2 = emit (RemoteGetFolderStatus accId actual) w1
                   in case EmailService_getFolderStatus es accId actual of
                        Inr (tot, unseen) \<Rightarrow>
                          fetchPage es now accId actual (messagesPerPage p) page (int tot)
                            (setTotalMessages (int tot) w2)
                      | Inl err \<Rightarrow>
                          (if total0 = 0
                           then fetchPage es now accId actual (messagesPerPage p) page 100
                                  (setTotalMessages 100 w2)
                           else fetchPage es now accId actual (messagesPerPage p) page total0 w2))))"

text \<open>The remote path with its \<open>catch\<close> and \<open>finally\<close>.\<close>

definition loadFromImap ::
  "Props \<Rightarrow> EmailService \<Rightarrow> int \<Rightarrow> string \<Rightarrow> int \<Rightarrow> int \<Rightarrow> World \<Rightarrow> World" where
  "loadFromImap p es now acct total0 page w =
     (let w1 = w\<lparr>state := (state w)\<lparr>loading := True, error_msg := None, isFromCache := False\<rparr>\<rparr>;
          w2 = (case loadFromImapBody p es now acct total0 page w1 of
                  (w', None) \<Rightarrow> w'
                | (w', Some err) \<Rightarrow> w'\<lparr>state := (state w')\<lparr>error_msg := Some err, shown := []\<rparr>\<rparr>)
      in w2\<lparr>state := (state w2)\<lparr>loading := False, isChangingPage := False\<rparr>\<rparr>)"

subsection \<open>The cache-first part\<close>

text \<open>
  \<open>currentPage >= Math.ceil((metadata?.totalMessages || 0) / messagesPerPage)\<close>. A page
  size of 0 divides by zero: the quotient is \<open>NaN\<close> or \<open>Infinity\<close>, and the comparison is
  false, unless the total is negative and the quotient is \<open>-Infinity\<close>.
\<close>

definition isLastPage :: "int \<Rightarrow> int \<Rightarrow> int \<Rightarrow> bool" where
  "isLastPage page tot pageSize =
     (if pageSize = 0 then tot < 0
      else page \<ge> \<lceil>real_of_int tot / real_of_int pageSize\<rceil>)"

text \<open>
  The cached page is shown when it is not empty. The result says whether the load is
  finished (\<open>True\<close>) or goes on to the remote path: on an empty page, on a short page
  that is not the last one, and when anything in the block throws.
\<close>

definition loadFromCache :: "Props \<Rightarrow> EmailService \<Rightarrow> string \<Rightarrow> int \<Rightarrow> World \<Rightarrow> bool \<times> World" where
  "loadFromCache p es acct page w =
     (case findAccount (emailAccounts p) acct of
        None \<Rightarrow> (False, w)
      | Some emailAccount \<Rightarrow>
          (let accId = id_acc emailAccount;
               pageSize = messagesPerPage p;
               ofs = (page - 1) * pageSize;
               cachedMessages = getCachedMessages (cache w) (folder_prop p) accId pageSize ofs;
               w1 = emit (CacheGetMessages (folder_prop p) accId pageSize ofs) w
           in if cachedMessages = [] then (False, w1)
              else
                (let syncTime = getLastSyncTime (cache w) (folder_prop p) accId;
                     w2 = (emit (RemoteGetFolders accId)
                            (emit (CacheGetLastSyncTime (folder_prop p) accId) w1))
                          \<lparr>state := (state w1)\<lparr>shown := cachedMessages, isFromCache := True,
                                                  lastSyncTime := syncTime\<rparr>\<rparr>
                 in case EmailService_getFolders es accId of
                      Inl err \<Rightarrow> (False, w2)
                    | Inr fs \<Rightarrow>
                        (let actual = actualFolderName (folder_prop p) fs;
                             metadata = getFolderMetadata (cache w) actual accId;
                             tot = (case metadata of None \<Rightarrow> 0 | Some (t, u) \<Rightarrow> t);
                             w3 = emit (CacheGetFolderMetadata actual accId) w2;
                             w4 = (if metadata \<noteq> None \<and> tot > 0 then setTotalMessages tot w3
                                   else setTotalMessages 0
                                          (if \<not> isRefreshing p \<and> onRefreshRequest p
                                           then emit RefreshRequested w3 else w3))
                         in (\<not> (\<not> isLastPage page tot pageSize
                                  \<and> int (length cachedMessages) < pageSize), w4)))))"

text \<open>
  The automatic refresh of a first page: requested when the folder was never synchronised
  or its newest fetch is older than the configured interval (in minutes).
\<close>

definition initialAutoRefresh :: "Props \<Rightarrow> int \<Rightarrow> string \<Rightarrow> World \<Rightarrow> World" where
  "initialAutoRefresh p now acct w =
     (if currentPage (state w) = 1 \<and> \<not> isChangingPage (state w) \<and> onRefreshRequest p
         \<and> autoRefreshEnabled p
      then (case findAccount (emailAccounts p) acct of
              None \<Rightarrow> w
            | Some emailAccount \<Rightarrow>
                (let syncTime = getLastSyncTime (cache w) (folder_prop p) (id_acc emailAccount);
                     w1 = emit (CacheGetLastSyncTime (folder_prop p) (id_acc emailAccount)) w;
                     shouldAutoRefresh =
                       (case syncTime of None \<Rightarrow> True
                        | Some t \<Rightarrow> now - t > autoRefreshInterval p * 60 * 1000)
                 in if shouldAutoRefresh \<and> \<not> isRefreshing p then emit RefreshRequested w1 else w1))
      else w)"

text \<open>
  \<open>loadMessages\<close>, with the guard of its effect: no account or no folder shows nothing.
\<close>

definition loadMessages :: "Props \<Rightarrow> EmailService \<Rightarrow> int \<Rightarrow> World \<Rightarrow> World" where
  "loadMessages p es now w =
     (case account_prop p of
        None \<Rightarrow> setMessages [] w
      | Some acct \<Rightarrow>
          if acct = [] \<or> folder_prop p = [] then setMessages [] w
          else
            (let w1 = initialAutoRefresh p now acct w;
                 (finished, w2) = loadFromCache p es acct (currentPage (state w)) w1
             in if finished then w2
                else loadFromImap p es now acct (totalMessages (state w)) (currentPage (state w)) w2))"

section \<open>Refresh of the current folder (app.tsx, \<open>handleRefresh('current')\<close>)\<close>

text \<open>
  The part of the application state a refresh touches: the store, the trace of its calls,
  the refresh trigger that makes the message list reload, and the refresh status. Of the
  status only what is left when the refresh ends is kept; the progress messages set on
  the way are not. As for a page load, every clock reading of one run is \<open>now\<close>.
\<close>

datatype refresh_status =
    Idle
  | Refreshing
  | Refreshed string nat
  | FullRefreshNotImplemented
  | RefreshFailed js_error

record App =
  store :: CacheService
  trace :: "event list"
  refreshTrigger :: nat
  refreshStatus :: refresh_status

definition log_event :: "event \<Rightarrow> App \<Rightarrow> App" where
  "log_event e a = a\<lparr>trace := trace a @ [e]\<rparr>"

definition writeMessages :: "int \<Rightarrow> string \<Rightarrow> string \<Rightarrow> EmailMessage list \<Rightarrow> App \<Rightarrow> App" where
  "writeMessages now accId fld msgs a =
     (log_event (CacheUpdateMessages fld accId msgs) a)
       \<lparr>store := updateMessages (store a) msgs fld accId now\<rparr>"

text \<open>\<open>if (msg.uid)\<close>: an undefined uid and the uid 0 are falsy.\<close>

definition truthy_uid :: "EmailMessage \<Rightarrow> bool" where
  "truthy_uid msg = (case uid msg of None \<Rightarrow> False | Some u \<Rightarrow> u \<noteq> 0)"

text \<open>
  \<open>Map.set\<close> on a map that iterates in insertion order: an existing key keeps its place
  and takes the new value, a new key goes to the end.
\<close>

fun map_set :: "nat \<Rightarrow> 'v \<Rightarrow> (nat \<times> 'v) list \<Rightarrow> (nat \<times> 'v) list" where
  "map_set k v [] = [(k, v)]"
| "map_set k v (p # ps) = (if fst p = k then (k, v) # ps else p # map_set k v ps)"

definition set_by_uid :: "EmailMessage \<Rightarrow> (nat \<times> EmailMessage) list \<Rightarrow> (nat \<times> EmailMessage) list" where
  "set_by_uid msg uidMap =
     (case uid msg of None \<Rightarrow> uidMap
      | Some u \<Rightarrow> if u \<noteq> 0 then map_set u msg uidMap else uidMap)"

text \<open>The UIDs of the cached messages: \<open>map(m => m.uid).filter(uid => uid !== undefined)\<close>.\<close>

definition existingUIDs :: "EmailMessage list \<Rightarrow> nat set" where
  "existingUIDs cachedMessages = set (List.map_filter uid cachedMessages)"

text \<open>\<open>fetchedMessages.filter(msg => msg.uid && !existingUIDs.has(msg.uid))\<close>.\<close>

definition newMessages :: "EmailMessage list \<Rightarrow> EmailMessage list \<Rightarrow> EmailMessage list" where
  "newMessages cachedMessages fetchedMessages =
     filter (\<lambda>msg. case uid msg of None \<Rightarrow> False
                  | Some u \<Rightarrow> u \<noteq> 0 \<and> u \<notin> existingUIDs cachedMessages)
            fetchedMessages"

text \<open>
  The merge of a steady-state refresh: with something new, the cached messages and then
  the fetched ones are put into a map keyed by UID and its values are taken; with nothing
  new, the cached list is kept.
\<close>

definition mergeMessages :: "EmailMessage list \<Rightarrow> EmailMessage list \<Rightarrow> EmailMessage list" where
  "mergeMessages cachedMessages fetchedMessages =
     (if newMessages cachedMessages fetchedMessages \<noteq> []
      then map snd (fold set_by_uid fetchedMessages (fold set_by_uid cachedMessages []))
      else cachedMessages)"

text \<open>A step of the refresh yields the messages collected so far, the application state
  reached and, when it threw, the error.\<close>

type_synonym collected = "(EmailMessage list \<times> App) \<times> js_error option"

text \<open>
  The backward walk of the initial load: windows of \<open>regularBatchSize = 500\<close> sequence
  numbers from \<open>endS\<close> down, each appended to the messages collected so far, which are
  written to the store when their number is a multiple of 1000.
\<close>

function backfill ::
  "EmailService \<Rightarrow> int \<Rightarrow> string \<Rightarrow> string \<Rightarrow> int \<Rightarrow> EmailMessage list \<Rightarrow> App \<Rightarrow> collected" where
  "backfill es now accId fld endS allMessages a =
     (if endS > 0
      then (let startS = max 1 (endS - 500 + 1);
                a1 = log_event (RemoteGetMessages accId fld 500 (Closed startS endS)) a
            in case EmailService_getMessages es accId fld 500 (Some (Closed startS endS)) of
                 Inl err \<Rightarrow> ((allMessages, a1), Some err)
               | Inr batchMessages \<Rightarrow>
                   (let allMessages' = allMessages @ batchMessages;
                        a2 = (if length allMessages' mod 1000 = 0
                              then writeMessages now accId fld allMessages' a1 else a1)
                    in backfill es now accId fld (endS - 500) allMessages' a2))
      else ((allMessages, a), None))"
  by pat_completeness auto
termination
  by (relation "measure (\<lambda>(es, now, accId, fld, endS, allMessages, a). nat endS)") auto

declare backfill.simps [simp del]

text \<open>
  The initial load: the newest \<open>firstBatchSize = 50\<close> sequence numbers first, written to
  the store at once and announced through the refresh trigger, then the backward walk.
\<close>

definition initialLoad :: "EmailService \<Rightarrow> int \<Rightarrow> string \<Rightarrow> string \<Rightarrow> int \<Rightarrow> App \<Rightarrow> collected" where
  "initialLoad es now accId fld totalMessages' a =
     (let firstEndSeq = totalMessages';
          firstStartSeq = max 1 (firstEndSeq - 50 + 1);
          a1 = log_event (RemoteGetMessages accId fld 50 (Closed firstStartSeq firstEndSeq)) a
      in case EmailService_getMessages es accId fld 50 (Some (Closed firstStartSeq firstEndSeq)) of
           Inl err \<Rightarrow> (([], a1), Some err)
         | Inr firstBatch \<Rightarrow>
             (let a2 = (writeMessages now accId fld firstBatch a1)
                         \<lparr>refreshTrigger := Suc (refreshTrigger a1)\<rparr>;
                  remainingEnd = firstStartSeq - 1
              in if remainingEnd > 0 then backfill es now accId fld remainingEnd firstBatch a2
                 else ((firstBatch, a2), None)))"

text \<open>
  The steady-state refresh: the newest \<open>messagesToCheck = 200\<close> sequence numbers are
  fetched and merged with the cached messages.
\<close>

definition steadyRefresh ::
  "EmailService \<Rightarrow> string \<Rightarrow> string \<Rightarrow> int \<Rightarrow> EmailMessage list \<Rightarrow> App \<Rightarrow> collected" where
  "steadyRefresh es accId fld totalMessages' cachedMessages a =
     (let endS = totalMessages';
          startS = max 1 (endS - 200 + 1);
          a1 = log_event (RemoteGetMessages accId fld 200 (Closed startS endS)) a
      in case EmailService_getMessages es accId fld 200 (Some (Closed startS endS)) of
           Inl err \<Rightarrow> (([], a1), Some err)
         | Inr fetchedMessages \<Rightarrow> ((mergeMessages cachedMessages fetchedMessages, a1), None))"

definition collectMessages ::
  "EmailService \<Rightarrow> int \<Rightarrow> string \<Rightarrow> string \<Rightarrow> int \<Rightarrow> EmailMessage list \<Rightarrow> App \<Rightarrow> collected" where
  "collectMessages es now accId fld totalMessages' cachedMessages a =
     (if totalMessages' > 0
      then (if cachedMessages = [] then initialLoad es now accId fld totalMessages' a
            else steadyRefresh es accId fld totalMessages' cachedMessages a)
      else (([], a), None))"

definition seen_flag :: string where
  "seen_flag = CHR 0x5C # ''Seen''"

definition unreadCount :: "EmailMessage list \<Rightarrow> nat" where
  "unreadCount msgs = length (filter (\<lambda>msg. seen_flag \<notin> set (flags msg)) msgs)"


subsection \<open>New-message tracking of the message list\<close>



section \<open>Sample values\<close>

text \<open>Concrete accounts, messages and mailboxes at which the properties below are run.\<close>

definition demo_msg :: "nat \<Rightarrow> int \<Rightarrow> EmailMessage" where
  "demo_msg u d =
     \<lparr>id_msg = ''m'', accountId = [], folder = [], uid = Some u, messageId = ''m'',
      from_addrs = [], to_addrs = [], cc = None, bcc = None, subject = ''s'', date = d,
      body_text = None, body_html = None, attachments = None, flags = [], references = None\<rparr>"

definition demo_imap :: "EmailMessage list \<Rightarrow> Imap" where
  "demo_imap msgs =
     \<lparr>openBox = (\<lambda>f. Inr \<lparr>messages_total = Some (length msgs), messages_new = Some 0\<rparr>),
      search = (\<lambda>f c. Inr (Some [1 ..< Suc (length msgs)])),
      seq_fetch = (\<lambda>f r. Inr msgs),
      getBoxes = Inr []\<rparr>"

definition demo_world :: World where
  "demo_world =
     \<lparr>state = \<lparr>shown = [], totalMessages = 0, currentPage = 1, isChangingPage = False,
               loading = False, error_msg = None, isFromCache = False, lastSyncTime = None\<rparr>,
      cache = None, events = []\<rparr>"

definition demo_service :: "EmailMessage list \<Rightarrow> EmailService" where
  "demo_service msgs = (\<lambda>a. Inr \<lparr>imap = Some (demo_imap msgs)\<rparr>)"

definition demo_props :: Props where
  "demo_props =
     \<lparr>folder_prop = ''INBOX'', account_prop = Some ''me@example.org'',
      emailAccounts = [\<lparr>id_acc = ''acc'', email = ''me@example.org''\<rparr>],
      messagesPerPage = 20, autoRefreshEnabled = False, autoRefreshInterval = 5,
      isRefreshing = False, onRefreshRequest = True\<rparr>"


definition demo_row :: "nat \<Rightarrow> int \<Rightarrow> CachedMessage" where
  "demo_row u d =
     \<lparr>row_id = u, row_uid = u, folder_id = ''INBOX'', account_id = ''acc'', row_subject = ''s'',
      from_name = [], from_address = ''a@b'', row_date = d, row_flags = [], preview = [],
      has_attachments = 1, thread_count = 0, last_fetched = 5\<rparr>"

definition demo_att :: "nat \<Rightarrow> AttachmentRow" where
  "demo_att u =
     \<lparr>att_id = 1, message_uid = u, att_folder_id = ''INBOX'', att_account_id = ''acc'',
      att_filename = ''f.pdf'', content_type = ''application/pdf'', att_size = 10,
      content_id = None\<rparr>"

definition demo_folder_row :: FolderRow where
  "demo_folder_row =
     \<lparr>fld_id = ''acc:INBOX'', fld_account_id = ''acc'', fld_name = ''INBOX'', last_sync = 5,
      total_count = 1, unread_count = 1\<rparr>"

definition demo_db :: "bool \<Rightarrow> Database" where
  "demo_db fk =
     \<lparr>messages = [demo_row 1 10], folders = [demo_folder_row], attachment_rows = [demo_att 1],
      messages_seq = 1, attachments_seq = 1, foreign_keys = fk\<rparr>"

text \<open>The folder key an operation of the trace was given, if it takes one.\<close>

fun event_folder :: "event \<Rightarrow> string option" where
  "event_folder RefreshRequested = None"
| "event_folder (CacheGetMessages f a l ofs) = Some f"
| "event_folder (CacheGetLastSyncTime f a) = Some f"
| "event_folder (CacheGetFolderMetadata f a) = Some f"
| "event_folder (CacheUpdateMessages f a ms) = Some f"
| "event_folder (CacheUpdateFolderMetadata f a t u) = Some f"
| "event_folder (RemoteGetFolders a) = None"
| "event_folder (RemoteGetFolderStatus a f) = Some f"
| "event_folder (RemoteGetMessages a f l r) = Some f"
| "event_folder (InvalidSequenceRange s e) = None"

definition demo_folder :: "string \<Rightarrow> EmailFolder" where
  "demo_folder n = \<lparr>name_fld = n, displayName = n\<rparr>"

definition sent_folders :: "EmailFolder list" where
  "sent_folders = [demo_folder ''INBOX'', demo_folder ''Sent Messages'', demo_folder ''Sent Mail'']"

definition sent_service :: EmailService where
  "sent_service = (\<lambda>a. Inr \<lparr>imap = Some ((demo_imap [demo_msg 1 10])\<lparr>getBoxes := Inr sent_folders\<rparr>)\<rparr>)"

text \<open>A mailbox that answers a range fetch with one message per sequence number.\<close>

definition full_imap :: Imap where
  "full_imap =
     \<lparr>openBox = (\<lambda>f. Inr \<lparr>messages_total = Some 2050, messages_new = Some 0\<rparr>),
      search = (\<lambda>f c. Inr (Some [1 ..< 2051])),
      seq_fetch = (\<lambda>f r. case r of Closed s e \<Rightarrow> Inr (map (\<lambda>i. demo_msg (nat i) i) [s..e])
                            | From s \<Rightarrow> Inr []),
      getBoxes = Inr []\<rparr>"

definition full_service :: EmailService where
  "full_service = (\<lambda>a. Inr \<lparr>imap = Some full_imap\<rparr>)"

definition demo_app :: App where
  "demo_app =
     \<lparr>store = Some (empty_database True), trace = [], refreshTrigger = 0, refreshStatus = Idle\<rparr>"

text \<open>
  Auxiliary notions for the merge: the UIDs of a list that the merge accepts (defined and
  not 0), and a UID map whose keys are distinct and are the UIDs of their values.
\<close>

definition truthy_uids :: "EmailMessage list \<Rightarrow> nat set" where
  "truthy_uids xs = {u. u \<noteq> 0 \<and> Some u \<in> uid ` set xs}"




text \<open>
  The synonym table of the folder resolver, read as a function of the upper-cased requested
  name, and an account that lists two folders of the Deleted group.
\<close>

definition synonyms :: "string \<Rightarrow> string list" where
  "synonyms n =
     (if n = ''SENT'' then [''SENT MAIL'', ''SENT MESSAGES'']
      else if n = ''DELETED'' then [''DELETED MESSAGES'', ''DELETED ITEMS'']
      else if n = ''JUNK'' then [''JUNK E-MAIL'', ''JUNK MAIL'']
      else if n = ''TRASH'' then [''DELETED'']
      else [])"

definition trash_folders :: "EmailFolder list" where
  "trash_folders = [demo_folder ''INBOX'', demo_folder ''Deleted Items'', demo_folder ''Deleted'']"



definition attachment_list :: "EmailMessage \<Rightarrow> Attachment list" where
  "attachment_list m = (case attachments m of None \<Rightarrow> [] | Some as \<Rightarrow> as)"

definition read_back :: "string \<Rightarrow> string \<Rightarrow> EmailMessage \<Rightarrow> EmailMessage" where
  "read_back folderId accId m =
     (case uid m of None \<Rightarrow> m
      | Some u \<Rightarrow>
          cachedMessageToEmailMessage (message_row m u folderId accId 0)
            (map (\<lambda>att. attachment_row att u folderId accId) (attachment_list m)))"

section \<open>Properties\<close>

subsection \<open>Sequence window of a remote page fetch\<close>

lemma bufferSize_int: "bufferSize pageSize = (3 * pageSize + 1) div 2"
  unfolding bufferSize_def by (simp add: ceiling_def) linarith?

lemma sorted_sort_by_date_desc:
  "sorted_wrt (\<lambda>a b. date b \<le> date a) (sort_by_date_desc msgs)"
proof -
  have "sorted (map (\<lambda>m. - date m) (sort_key (\<lambda>m. - date m) msgs))"
    by (rule sorted_sort_key)
  then show ?thesis
    unfolding sort_by_date_desc_def by (simp add: sorted_map)
qed

lemma sorted_desc_map_keys:
  "sorted_wrt (\<lambda>a b. date b \<le> date a) xs \<Longrightarrow>
   sorted_wrt (\<lambda>a b. date b \<le> date a) (map (\<lambda>msg. msg\<lparr>accountId := accId, folder := fld\<rparr>) xs)"
  by (simp add: sorted_wrt_map)

lemma getMessages_connected:
  assumes "es accId = Inr svc" "imap svc = Some c" "openBox c fld = Inr box"
    and "seq_fetch c fld r = Inr raw"
  shows "EmailService_getMessages es accId fld limit (Some r) =
     Inr (map (\<lambda>msg. msg\<lparr>accountId := accId, folder := fld\<rparr>) (sort_by_date_desc raw))"
  using assms
  by (simp add: EmailService_getMessages_def ImapService_getMessages_def fetchBySequence_def)

lemma window_ordered:
  assumes "1 \<le> pageSize"
  shows "startSeq (endSeq tot page pageSize) pageSize \<le> endSeq tot page pageSize"
  using assms unfolding startSeq_def endSeq_def bufferSize_int by simp linarith?

text \<open>
  C1. A remote page fetch for a folder total of at least 1, a page index of at least 1 and
  a page size of at least 1 requests the window \<open>startSeq:endSeq\<close> with
  \<open>endSeq = max(1, total - (page-1)*pageSize)\<close>, \<open>bufferSize = ceil(pageSize * 1.5)\<close> and
  \<open>startSeq = max(1, endSeq - bufferSize + 1)\<close>; what the mailbox returns is sorted by date,
  newest first, and its first \<open>pageSize\<close> entries are what is displayed and what is
  written to the store. For a total of 523, a page size of 20 and page 1 the window is
  494:523 with a buffer of 30.
\<close>

theorem remote_page_fetch_window:
  assumes tot: "1 \<le> tot" and page: "1 \<le> page" and size: "1 \<le> pageSize"
    and conn: "es accId = Inr svc" "imap svc = Some c" "openBox c actual = Inr box"
    and endS: "endS = max 1 (tot - (page - 1) * pageSize)"
    and startS: "startS = max 1 (endS - \<lceil>real_of_int pageSize * 1.5\<rceil> + 1)"
    and raw: "seq_fetch c actual (Closed startS endS) = Inr raw"
    and fetched: "fetched = map (\<lambda>msg. msg\<lparr>accountId := accId, folder := actual\<rparr>) (sort_by_date_desc raw)"
    and res: "w' = fst (fetchPage es now accId actual pageSize page tot w)"
  shows "snd (fetchPage es now accId actual pageSize page tot w) = None
       \<and> events w' = events w @ RemoteGetMessages accId actual pageSize (Closed startS endS) #
           (if shown (state w') = [] then []
            else [CacheUpdateMessages actual accId (shown (state w')),
                  CacheUpdateFolderMetadata actual accId tot 0])
       \<and> sorted_wrt (\<lambda>a b. date b \<le> date a) fetched
       \<and> shown (state w') = take (nat pageSize) fetched
       \<and> cache w' =
           (if shown (state w') = [] then cache w
            else updateFolderMetadata
                   (updateMessages (cache w) (shown (state w')) actual accId now)
                   actual accId tot 0 now)
       \<and> endSeq 523 1 20 = 523 \<and> bufferSize 20 = 30 \<and> startSeq 523 20 = 494"
proof -
  have e: "endSeq tot page pageSize = endS" by (simp add: endSeq_def endS)
  have s: "startSeq endS pageSize = startS" by (simp add: startSeq_def bufferSize_def startS)
  have le: "startS \<le> endS" using window_ordered[OF size, of tot page] by (simp add: e s)
  have gm: "EmailService_getMessages es accId actual pageSize (Some (Closed startS endS)) = Inr fetched"
    using conn raw fetched by (simp add: getMessages_connected)
  have sl: "slice0 pageSize fetched = take (nat pageSize) fetched"
    using size by (simp add: slice0_def)
  have fp: "fetchPage es now accId actual pageSize page tot w =
      fetchWindow es now accId actual pageSize tot startS endS w"
    using tot by (simp add: fetchPage_def e s Let_def)
  have 1: "snd (fetchPage es now accId actual pageSize page tot w) = None"
    using le by (simp add: fp fetchWindow_def gm Let_def)
  have 2: "shown (state w') = take (nat pageSize) fetched"
    using le by (simp add: res fp fetchWindow_def gm Let_def sl setMessages_def emit_def)
  have 3: "events w' = events w @ RemoteGetMessages accId actual pageSize (Closed startS endS) #
           (if shown (state w') = [] then []
            else [CacheUpdateMessages actual accId (shown (state w')),
                  CacheUpdateFolderMetadata actual accId tot 0])"
    using le by (simp add: res fp fetchWindow_def gm Let_def sl setMessages_def emit_def)
  have 4: "sorted_wrt (\<lambda>a b. date b \<le> date a) fetched"
    unfolding fetched by (rule sorted_desc_map_keys[OF sorted_sort_by_date_desc])
  have 5: "cache w' =
           (if shown (state w') = [] then cache w
            else updateFolderMetadata
                   (updateMessages (cache w) (shown (state w')) actual accId now)
                   actual accId tot 0 now)"
    using le by (simp add: res fp fetchWindow_def gm Let_def sl setMessages_def emit_def)
  have 6: "endSeq 523 1 20 = 523 \<and> bufferSize 20 = 30 \<and> startSeq 523 20 = 494"
    by (simp add: endSeq_def startSeq_def bufferSize_def)
  from 1 2 3 4 5 6 show ?thesis by blast
qed

theorem remote_page_fetch_window_witness:
  "shown (state (fst (fetchPage (\<lambda>a. Inr \<lparr>imap = Some (demo_imap [demo_msg 1 10, demo_msg 2 20])\<rparr>)
       0 ''acc'' ''INBOX'' 20 1 523 demo_world)))
    = [(demo_msg 2 20)\<lparr>accountId := ''acc'', folder := ''INBOX''\<rparr>,
       (demo_msg 1 10)\<lparr>accountId := ''acc'', folder := ''INBOX''\<rparr>]"
  using remote_page_fetch_window[where tot = 523 and page = 1 and pageSize = 20
      and es = "\<lambda>a. Inr \<lparr>imap = Some (demo_imap [demo_msg 1 10, demo_msg 2 20])\<rparr>"
      and accId = "''acc''" and svc = "\<lparr>imap = Some (demo_imap [demo_msg 1 10, demo_msg 2 20])\<rparr>"
      and c = "demo_imap [demo_msg 1 10, demo_msg 2 20]" and actual = "''INBOX''"
      and box = "\<lparr>messages_total = Some 2, messages_new = Some 0\<rparr>"
      and endS = 523 and startS = 494 and raw = "[demo_msg 1 10, demo_msg 2 20]"
      and now = 0 and w = demo_world, OF _ _ _ _ _ _ _ _ _ refl refl]
  by (simp add: demo_imap_def sort_by_date_desc_def demo_msg_def)

text \<open>
  C6. An inverted window (\<open>startSeq > endSeq\<close>) makes the page load report the range and
  show nothing, without an error; and for a total, a page index and a page size of at least
  1 the clamped bounds are never inverted, so a remote page fetch never takes that branch.
\<close>

theorem inverted_window_unreachable:
  "(startS > endS \<longrightarrow>
      fetchWindow es now accId actual pageSize tot startS endS w =
        (setMessages [] (emit (InvalidSequenceRange startS endS) w), None))
   \<and> (1 \<le> tot \<and> 1 \<le> page \<and> 1 \<le> pageSize \<longrightarrow>
        startSeq (endSeq tot page pageSize) pageSize \<le> endSeq tot page pageSize
        \<and> (\<forall>s e. InvalidSequenceRange s e
                  \<in> set (events (fst (fetchPage es now accId actual pageSize page tot w)))
               \<longrightarrow> InvalidSequenceRange s e \<in> set (events w)))"
proof -
  have "InvalidSequenceRange s e
          \<in> set (events (fst (fetchPage es now accId actual pageSize page tot w)))
      \<longrightarrow> InvalidSequenceRange s e \<in> set (events w)"
    if "1 \<le> tot" "1 \<le> pageSize" for s e
  proof -
    have le: "startSeq (endSeq tot page pageSize) pageSize \<le> endSeq tot page pageSize"
      using that by (simp add: window_ordered)
    show ?thesis
      using that le
      by (auto simp: fetchPage_def fetchWindow_def Let_def emit_def setMessages_def
               split: sum.splits)
  qed
  then show ?thesis
    using window_ordered[of pageSize tot page] by (simp add: fetchWindow_def)
qed

theorem inverted_window_unreachable_witness:
  "startSeq (endSeq 523 1 20) 20 \<le> endSeq 523 1 20 \<and>
   fetchWindow (\<lambda>a. Inl (JsError ''x'')) 0 ''acc'' ''INBOX'' 20 523 5 4 demo_world =
        (setMessages [] (emit (InvalidSequenceRange 5 4) demo_world), None)"
  using inverted_window_unreachable[where startS = 5 and endS = 4 and es = "\<lambda>a. Inl (JsError ''x'')"
      and now = 0 and accId = "''acc''" and actual = "''INBOX''" and pageSize = 20 and tot = 523
      and w = demo_world and page = 1]
  by simp

subsection \<open>Folder status\<close>



subsection \<open>Clearing a folder\<close>

lemma clearFolder_metadata:
  "getFolderMetadata (clearFolder cs folderId accId) f a = getFolderMetadata cs f a"
  by (cases cs) (simp_all add: clearFolder_def getFolderMetadata_def delete_messages_def Let_def)

text \<open>
  C9, as the code has it. \<open>clearFolder\<close> deletes the rows of the messages table of that
  folder and account and leaves the folder rows as they are, so \<open>getFolderMetadata\<close>
  answers as before. The attachment rows stay as they are when the engine does not enforce
  foreign keys; under enforcement the attachment rows that reference a deleted message go
  with it, by the \<open>ON DELETE CASCADE\<close> of the schema.
\<close>

theorem clearFolder_frame:
  "getFolderMetadata (clearFolder cs folderId accId) f a = getFolderMetadata cs f a
   \<and> (\<forall>db. cs = Some db \<longrightarrow>
        (\<exists>db'. clearFolder cs folderId accId = Some db'
           \<and> folders db' = folders db
           \<and> messages db' = filter (\<lambda>r. \<not> in_folder folderId accId r) (messages db)
           \<and> (\<not> foreign_keys db \<longrightarrow> attachment_rows db' = attachment_rows db)
           \<and> (foreign_keys db \<longrightarrow>
                attachment_rows db' =
                  filter (\<lambda>a. \<not> list_ex (references_row a)
                                     (filter (in_folder folderId accId) (messages db)))
                         (attachment_rows db))))"
proof (intro conjI)
  show "getFolderMetadata (clearFolder cs folderId accId) f a = getFolderMetadata cs f a"
    by (rule clearFolder_metadata)
qed (auto simp: clearFolder_def delete_messages_def Let_def)

theorem clearFolder_frame_witness:
  "getFolderMetadata (clearFolder (Some (demo_db False)) ''INBOX'' ''acc'') ''INBOX'' ''acc'' = Some (1, 1)
   \<and> (\<exists>db'. clearFolder (Some (demo_db False)) ''INBOX'' ''acc'' = Some db'
         \<and> messages db' = [] \<and> attachment_rows db' = [demo_att 1])"
  using clearFolder_frame[where cs = "Some (demo_db False)" and folderId = "''INBOX''" and accId = "''acc''"
     and f = "''INBOX''" and a = "''acc''"]
  by (auto simp: demo_db_def getFolderMetadata_def folder_key_def demo_folder_row_def demo_row_def in_folder_def)

text \<open>
  C9, as it is stated, fails under foreign-key enforcement: clearing the folder of a
  message with one attachment removes the attachment row.
\<close>

theorem clearFolder_cascade_counterexample:
  "attachment_rows (the (clearFolder (Some (demo_db True)) ''INBOX'' ''acc''))
     \<noteq> attachment_rows (demo_db True)"
  by (simp add: clearFolder_def delete_messages_def demo_db_def demo_row_def demo_att_def
        in_folder_def references_row_def Let_def)

subsection \<open>A store that failed to initialise\<close>

lemma loadFromCache_no_store:
  "cache w = None \<Longrightarrow> fst (loadFromCache p es acct page w) = False
     \<and> cache (snd (loadFromCache p es acct page w)) = None
     \<and> state (snd (loadFromCache p es acct page w)) = state w"
  by (simp add: loadFromCache_def getCachedMessages_def Let_def emit_def split: option.splits)

lemma initialAutoRefresh_frame:
  "cache (initialAutoRefresh p now acct w) = cache w
   \<and> state (initialAutoRefresh p now acct w) = state w"
  by (simp add: initialAutoRefresh_def Let_def emit_def split: option.splits)

lemma fetchWindow_no_store:
  "cache w = None \<Longrightarrow> cache (fst (fetchWindow es now accId actual pageSize tot startS endS w)) = None"
  by (simp add: fetchWindow_def Let_def emit_def setMessages_def updateMessages_def
        updateFolderMetadata_def split: sum.splits)

lemma fetchPage_no_store:
  "cache w = None \<Longrightarrow> cache (fst (fetchPage es now accId actual pageSize page tot w)) = None"
  by (simp add: fetchPage_def Let_def fetchWindow_no_store setMessages_def)

lemma loadFromImapBody_no_store:
  "cache w = None \<Longrightarrow> cache (fst (loadFromImapBody p es now acct total0 page w)) = None"
  by (auto simp: loadFromImapBody_def Let_def fetchPage_no_store emit_def setTotalMessages_def
        split: option.splits sum.splits prod.splits)

lemma loadFromImap_no_store:
  "cache w = None \<Longrightarrow> cache (loadFromImap p es now acct total0 page w) = None"
proof -
  assume c: "cache w = None"
  let ?w1 = "w\<lparr>state := (state w)\<lparr>loading := True, error_msg := None, isFromCache := False\<rparr>\<rparr>"
  have "cache ?w1 = None" using c by simp
  then have "cache (fst (loadFromImapBody p es now acct total0 page ?w1)) = None"
    by (rule loadFromImapBody_no_store)
  then show ?thesis
    by (cases "loadFromImapBody p es now acct total0 page ?w1")
       (auto simp: loadFromImap_def Let_def split: option.splits)
qed

lemma loadFromImap_success:
  assumes acc: "findAccount (emailAccounts p) acct = Some acc"
    and fs: "EmailService_getFolders es (id_acc acc) = Inr fs"
    and actual: "actual = actualFolderName (folder_prop p) fs"
    and st: "EmailService_getFolderStatus es (id_acc acc) actual = Inr (tot, unseen)"
    and pos: "1 \<le> tot" "1 \<le> messagesPerPage p"
    and endS: "endS = endSeq (int tot) page (messagesPerPage p)"
    and startS: "startS = startSeq endS (messagesPerPage p)"
    and gm: "EmailService_getMessages es (id_acc acc) actual (messagesPerPage p)
               (Some (Closed startS endS)) = Inr msgs"
  shows "shown (state (loadFromImap p es now acct total0 page w)) = take (nat (messagesPerPage p)) msgs
     \<and> error_msg (state (loadFromImap p es now acct total0 page w)) = None
     \<and> RemoteGetMessages (id_acc acc) actual (messagesPerPage p) (Closed startS endS)
          \<in> set (events (loadFromImap p es now acct total0 page w))"
proof -
  have le: "startS \<le> endS"
    using pos by (simp add: startS endS window_ordered)
  show ?thesis
    using assms(1-6) le gm[unfolded startS endS] le[unfolded startS endS]
    by (simp add: loadFromImap_def loadFromImapBody_def fetchPage_def fetchWindow_def Let_def
        emit_def setMessages_def setTotalMessages_def slice0_def startS endS)
qed

text \<open>
  C5. When the initialisation of the store fails, the store has no database: every read
  answers empty, every write leaves it without a database, and a page load goes on to the
  remote path, as it does on every cache miss, and leaves the store as it is. When the remote
  client answers, the page shown is the fetched page and no error is set.
\<close>

theorem store_init_failure_is_noop:
  assumes h: "cache w = None" "account_prop p = Some acct" "acct \<noteq> []" "folder_prop p \<noteq> []"
  shows "initializeDatabase (Inl err) = None
   \<and> getCachedMessages None folderId accId lmt ofs = []
   \<and> getLastSyncTime None folderId accId = None
   \<and> getFolderMetadata None folderId accId = None
   \<and> getCacheStats None = (0, None)
   \<and> updateMessages None msgs folderId accId now = None
   \<and> updateFolderMetadata None folderId accId totalCount unread now = None
   \<and> updateMessageFlags None u folderId accId fs' = None
   \<and> clearFolder None folderId accId = None
   \<and> clearAllCache None = None
   \<and> fst (loadFromCache p es acct (currentPage (state w)) (initialAutoRefresh p now acct w)) = False
   \<and> loadFromImap p es now acct (totalMessages (state w)) (currentPage (state w))
            (snd (loadFromCache p es acct (currentPage (state w)) (initialAutoRefresh p now acct w)))
        = loadMessages p es now w
   \<and> cache (loadMessages p es now w) = None
   \<and> (findAccount (emailAccounts p) acct = Some acc
          \<and> EmailService_getFolders es (id_acc acc) = Inr fs
          \<and> actual = actualFolderName (folder_prop p) fs
          \<and> EmailService_getFolderStatus es (id_acc acc) actual = Inr (tot, unseen)
          \<and> 1 \<le> tot \<and> 1 \<le> messagesPerPage p
          \<and> endS = endSeq (int tot) (currentPage (state w)) (messagesPerPage p)
          \<and> startS = startSeq endS (messagesPerPage p)
          \<and> EmailService_getMessages es (id_acc acc) actual (messagesPerPage p)
               (Some (Closed startS endS)) = Inr fetched
          \<longrightarrow> shown (state (loadMessages p es now w)) = take (nat (messagesPerPage p)) fetched
            \<and> error_msg (state (loadMessages p es now w)) = None
            \<and> RemoteGetMessages (id_acc acc) actual (messagesPerPage p) (Closed startS endS)
                 \<in> set (events (loadMessages p es now w)))"
proof -
  have ops: "initializeDatabase (Inl err) = None
   \<and> getCachedMessages None folderId accId lmt ofs = []
   \<and> getLastSyncTime None folderId accId = None
   \<and> getFolderMetadata None folderId accId = None
   \<and> getCacheStats None = (0, None)
   \<and> updateMessages None msgs folderId accId now = None
   \<and> updateFolderMetadata None folderId accId totalCount unread now = None
   \<and> updateMessageFlags None u folderId accId fs' = None
   \<and> clearFolder None folderId accId = None
   \<and> clearAllCache None = None"
    by (simp add: initializeDatabase_def getCachedMessages_def getLastSyncTime_def
        getFolderMetadata_def getCacheStats_def updateMessages_def updateFolderMetadata_def
        updateMessageFlags_def clearFolder_def clearAllCache_def)
  let ?w1 = "initialAutoRefresh p now acct w"
  have c1: "cache ?w1 = None" using h(1) by (simp add: initialAutoRefresh_frame)
  note lc = loadFromCache_no_store[OF c1, of p es acct "currentPage (state w)"]
  have eq: "loadMessages p es now w =
          loadFromImap p es now acct (totalMessages (state w)) (currentPage (state w))
            (snd (loadFromCache p es acct (currentPage (state w)) ?w1))"
    using h lc by (cases "loadFromCache p es acct (currentPage (state w)) ?w1")
        (simp add: loadMessages_def Let_def)
  have cn: "cache (loadMessages p es now w) = None"
    unfolding eq using lc by (intro loadFromImap_no_store) simp
  have succ: "shown (state (loadMessages p es now w)) = take (nat (messagesPerPage p)) fetched
            \<and> error_msg (state (loadMessages p es now w)) = None
            \<and> RemoteGetMessages (id_acc acc) actual (messagesPerPage p) (Closed startS endS)
                 \<in> set (events (loadMessages p es now w))"
    if r: "findAccount (emailAccounts p) acct = Some acc"
          "EmailService_getFolders es (id_acc acc) = Inr fs"
          "actual = actualFolderName (folder_prop p) fs"
          "EmailService_getFolderStatus es (id_acc acc) actual = Inr (tot, unseen)"
          "1 \<le> tot" "1 \<le> messagesPerPage p"
          "endS = endSeq (int tot) (currentPage (state w)) (messagesPerPage p)"
          "startS = startSeq endS (messagesPerPage p)"
          "EmailService_getMessages es (id_acc acc) actual (messagesPerPage p)
               (Some (Closed startS endS)) = Inr fetched"
    unfolding eq using loadFromImap_success[OF r] by simp
  show ?thesis
    using ops lc eq[symmetric] cn succ by blast
qed

theorem store_init_failure_is_noop_witness:
  "cache demo_world = None
   \<and> shown (state (loadMessages demo_props (demo_service [demo_msg 1 10, demo_msg 2 20]) 0 demo_world))
       = [(demo_msg 2 20)\<lparr>accountId := ''acc'', folder := ''INBOX''\<rparr>,
          (demo_msg 1 10)\<lparr>accountId := ''acc'', folder := ''INBOX''\<rparr>]
   \<and> error_msg (state (loadMessages demo_props (demo_service [demo_msg 1 10, demo_msg 2 20]) 0 demo_world)) = None
   \<and> cache (loadMessages demo_props (demo_service [demo_msg 1 10, demo_msg 2 20]) 0 demo_world) = None"
proof -
  have gm: "EmailService_getMessages (demo_service [demo_msg 1 10, demo_msg 2 20]) ''acc'' ''INBOX'' 20
      (Some (Closed 1 2)) = Inr [(demo_msg 2 20)\<lparr>accountId := ''acc'', folder := ''INBOX''\<rparr>,
          (demo_msg 1 10)\<lparr>accountId := ''acc'', folder := ''INBOX''\<rparr>]"
    by (simp add: EmailService_getMessages_def ImapService_getMessages_def demo_service_def
        demo_imap_def fetchBySequence_def sort_by_date_desc_def demo_msg_def)
  have st: "EmailService_getFolderStatus (demo_service [demo_msg 1 10, demo_msg 2 20]) ''acc'' ''INBOX''
      = Inr (2, 2)"
    by (simp add: EmailService_getFolderStatus_def ImapService_getFolderStatus_def demo_service_def
        demo_imap_def result_count_def)
  have fs: "EmailService_getFolders (demo_service [demo_msg 1 10, demo_msg 2 20]) ''acc'' = Inr []"
    by (simp add: EmailService_getFolders_def ImapService_getFolders_def demo_service_def demo_imap_def)
  have acc: "findAccount (emailAccounts demo_props) ''me@example.org''
      = Some \<lparr>id_acc = ''acc'', email = ''me@example.org''\<rparr>"
    by (simp add: findAccount_def demo_props_def)
  have rng: "endSeq 2 1 20 = 2" "startSeq 2 20 = 1"
    by (simp_all add: endSeq_def startSeq_def bufferSize_def)
  have pr: "account_prop demo_props = Some ''me@example.org''" "folder_prop demo_props = ''INBOX''"
     "messagesPerPage demo_props = 20"
    by (simp_all add: demo_props_def)
  have w: "cache demo_world = None" "currentPage (state demo_world) = 1"
    by (simp_all add: demo_world_def)
  show ?thesis
    using store_init_failure_is_noop[where w = demo_world and p = demo_props and acct = "''me@example.org''"
      and es = "demo_service [demo_msg 1 10, demo_msg 2 20]" and now = 0
      and acc = "\<lparr>id_acc = ''acc'', email = ''me@example.org''\<rparr>" and fs = "[]"
      and actual = "''INBOX''" and tot = 2 and unseen = 2 and endS = 2 and startS = 1
      and err = "JsError ''EACCES''" and folderId = "''INBOX''" and accId = "''acc''"
      and lmt = 20 and ofs = 0 and msgs = "[]" and totalCount = 0 and unread = 0 and u = 1
      and fs' = "[]"
      and fetched = "[(demo_msg 2 20)\<lparr>accountId := ''acc'', folder := ''INBOX''\<rparr>,
          (demo_msg 1 10)\<lparr>accountId := ''acc'', folder := ''INBOX''\<rparr>]"]
      acc fs st rng pr w gm by simp
qed

subsection \<open>Folder-name resolution\<close>

lemma actualFolderName_find:
  "actualFolderName fld fs =
     (case find (\<lambda>f. folder_matches (toUpperCase fld) (toUpperCase (name_fld f))) fs of
        None \<Rightarrow> fld | Some f \<Rightarrow> name_fld f)"
  by (induction fs) simp_all

lemma find_stronger:
  "find P xs = Some x \<Longrightarrow> (\<And>y. Q y \<Longrightarrow> P y) \<Longrightarrow> Q x \<Longrightarrow> find Q xs = Some x"
  by (induction xs) (auto split: if_splits)

lemma find_cong_pred: "(\<And>y. P y = Q y) \<Longrightarrow> find P xs = find Q xs"
  by (induction xs) auto

lemma folder_matches_synonyms:
  "folder_matches n x \<longleftrightarrow> x = n \<or> x \<in> set (synonyms n)"
  by (auto simp: folder_matches_def synonyms_def)

lemma synonym_matches_itself:
  "n \<noteq> ''TRASH'' \<Longrightarrow> m \<in> set (synonyms n) \<Longrightarrow> folder_matches m x \<longleftrightarrow> x = m"
  by (auto simp: folder_matches_def synonyms_def split: if_splits)

lemma resolution_stable:
  assumes nt: "toUpperCase fld \<noteq> ''TRASH''"
  shows "actualFolderName (actualFolderName fld fs) fs = actualFolderName fld fs"
proof (cases "find (\<lambda>g. folder_matches (toUpperCase fld) (toUpperCase (name_fld g))) fs")
  case None
  then show ?thesis by (simp add: actualFolderName_find)
next
  case (Some f)
  let ?N = "toUpperCase fld" and ?M = "toUpperCase (name_fld f)"
  have r: "actualFolderName fld fs = name_fld f" using Some by (simp add: actualFolderName_find)
  have Pf: "folder_matches ?N ?M"
    using Some by (auto dest: find_Some_iff[THEN iffD1])
  have "find (\<lambda>g. folder_matches ?M (toUpperCase (name_fld g))) fs = Some f"
  proof (rule find_stronger[OF Some])
    fix y assume my: "folder_matches ?M (toUpperCase (name_fld y))"
    from Pf have "?M = ?N \<or> ?M \<in> set (synonyms ?N)" by (simp add: folder_matches_synonyms)
    then show "folder_matches ?N (toUpperCase (name_fld y))"
    proof
      assume "?M = ?N" with my show ?thesis by simp
    next
      assume "?M \<in> set (synonyms ?N)"
      from synonym_matches_itself[OF nt this] my have "toUpperCase (name_fld y) = ?M" by simp
      with Pf show ?thesis by simp
    qed
  next
    show "folder_matches ?M ?M" by (simp add: folder_matches_def)
  qed
  then have "actualFolderName (name_fld f) fs = name_fld f" by (simp add: actualFolderName_find)
  then show ?thesis unfolding r .
qed

lemma fetchWindow_trace:
  "\<exists>evs. events (fst (fetchWindow es now accId actual pageSize tot startS endS w)) = events w @ evs
     \<and> (\<forall>ev \<in> set evs. event_folder ev = None \<or> event_folder ev = Some actual)
     \<and> RemoteGetFolders accId \<notin> set evs"
  by (auto simp: fetchWindow_def Let_def emit_def setMessages_def split: sum.splits)

lemma fetchPage_trace:
  "\<exists>evs. events (fst (fetchPage es now accId actual pageSize page tot w)) = events w @ evs
     \<and> (\<forall>ev \<in> set evs. event_folder ev = None \<or> event_folder ev = Some actual)
     \<and> RemoteGetFolders accId \<notin> set evs"
  using fetchWindow_trace[of es now accId actual pageSize tot _ _ w]
  by (auto simp: fetchPage_def Let_def setMessages_def)

lemma loadFromImapBody_trace:
  assumes acc: "findAccount (emailAccounts p) acct = Some acc"
    and fs: "EmailService_getFolders es (id_acc acc) = Inr fs"
  shows "\<exists>evs. events (fst (loadFromImapBody p es now acct knownTotal page w)) =
            events w @ RemoteGetFolders (id_acc acc) # evs
     \<and> (\<forall>ev \<in> set evs. event_folder ev = None
                      \<or> event_folder ev = Some (actualFolderName (folder_prop p) fs))
     \<and> RemoteGetFolders (id_acc acc) \<notin> set evs"
proof -
  let ?actual = "actualFolderName (folder_prop p) fs"
  let ?accId = "id_acc acc"
  let ?w2 = "emit (RemoteGetFolderStatus ?accId ?actual) (emit (RemoteGetFolders ?accId) w)"
  have ev2: "events ?w2 = events w @ [RemoteGetFolders ?accId, RemoteGetFolderStatus ?accId ?actual]"
    by (simp add: emit_def)
  have *: "\<exists>evs. events (fst (fetchPage es now ?accId ?actual ps page t w')) =
            events w @ RemoteGetFolders ?accId # evs
     \<and> (\<forall>ev \<in> set evs. event_folder ev = None \<or> event_folder ev = Some ?actual)
     \<and> RemoteGetFolders ?accId \<notin> set evs" if "events w' = events ?w2" for w' ps t
  proof -
    from fetchPage_trace[of es now ?accId ?actual ps page t w'] obtain evs where
      e: "events (fst (fetchPage es now ?accId ?actual ps page t w')) = events w' @ evs"
        "\<forall>ev \<in> set evs. event_folder ev = None \<or> event_folder ev = Some ?actual"
        "RemoteGetFolders ?accId \<notin> set evs" by blast
    show ?thesis
      by (rule exI[of _ "RemoteGetFolderStatus ?accId ?actual # evs"])
         (use e that ev2 in auto)
  qed
  show ?thesis
  proof (cases "EmailService_getFolderStatus es ?accId ?actual")
    case (Inl err)
    then show ?thesis
      using acc fs *[of "setTotalMessages 100 ?w2"] *[of ?w2]
      by (simp add: loadFromImapBody_def Let_def setTotalMessages_def)
  next
    case (Inr st)
    then show ?thesis
      using acc fs *[of "setTotalMessages (int (fst st)) ?w2"]
      by (cases st) (simp add: loadFromImapBody_def Let_def setTotalMessages_def)
  qed
qed

text \<open>
  C8, as the code has it. The requested folder name resolves to the name reported by the
  first folder of the account's list whose upper-cased name is the upper-cased request or
  one of its synonyms in the table (for SENT: SENT MAIL, SENT MESSAGES; for DELETED:
  DELETED MESSAGES, DELETED ITEMS; for JUNK: JUNK E-MAIL, JUNK MAIL; for TRASH: DELETED),
  and to the request itself when there is no such folder. Unless the request is Trash, in
  any letter case, resolving the resolved name again gives the same name. In the remote
  path of a page load the folder list is fetched once, and every operation after it that
  takes a folder key (the status request, the range fetch, the writes to the store) is
  given the resolved name.
\<close>

theorem folder_alias_resolution:
  assumes acc: "findAccount (emailAccounts p) acct = Some acc"
    and fs: "EmailService_getFolders es (id_acc acc) = Inr fs"
  shows "actualFolderName fld fs =
           (case find (\<lambda>g. toUpperCase (name_fld g) = toUpperCase fld
                          \<or> toUpperCase (name_fld g) \<in> set (synonyms (toUpperCase fld))) fs of
              None \<Rightarrow> fld | Some g \<Rightarrow> name_fld g)
     \<and> (toUpperCase fld \<noteq> ''TRASH'' \<longrightarrow>
           actualFolderName (actualFolderName fld fs) fs = actualFolderName fld fs)
     \<and> (\<exists>evs. events (fst (loadFromImapBody p es now acct knownTotal page w)) =
            events w @ RemoteGetFolders (id_acc acc) # evs
          \<and> (\<forall>ev \<in> set evs. event_folder ev = None
                      \<or> event_folder ev = Some (actualFolderName (folder_prop p) fs))
          \<and> RemoteGetFolders (id_acc acc) \<notin> set evs)"
proof -
  have 1: "actualFolderName fld fs =
           (case find (\<lambda>g. toUpperCase (name_fld g) = toUpperCase fld
                          \<or> toUpperCase (name_fld g) \<in> set (synonyms (toUpperCase fld))) fs of
              None \<Rightarrow> fld | Some g \<Rightarrow> name_fld g)"
    unfolding actualFolderName_find
    by (simp add: find_cong_pred[OF folder_matches_synonyms])
  have 2: "toUpperCase fld \<noteq> ''TRASH'' \<longrightarrow>
           actualFolderName (actualFolderName fld fs) fs = actualFolderName fld fs"
    by (intro impI resolution_stable)
  from 1 2 loadFromImapBody_trace[OF acc fs, of now knownTotal page w] show ?thesis
    by (intro conjI)
qed

lemma upper_sent: "toUpperCase ''Sent'' = ''SENT''"
  by code_simp

lemma upper_sent_messages: "toUpperCase ''Sent Messages'' = ''SENT MESSAGES''"
  by code_simp

lemma upper_sent_mail: "toUpperCase ''Sent Mail'' = ''SENT MAIL''"
  by code_simp

lemma upper_inbox: "toUpperCase ''INBOX'' = ''INBOX''"
  by code_simp

lemma upper_trash: "toUpperCase ''Trash'' = ''TRASH''"
  by code_simp

lemma upper_deleted: "toUpperCase ''Deleted'' = ''DELETED''"
  by code_simp

lemma upper_deleted_items: "toUpperCase ''Deleted Items'' = ''DELETED ITEMS''"
  by code_simp

theorem folder_alias_resolution_witness:
  "actualFolderName ''Sent'' sent_folders = ''Sent Messages''
   \<and> actualFolderName ''Sent Messages'' sent_folders = ''Sent Messages''
   \<and> (\<exists>evs. events (fst (loadFromImapBody demo_props sent_service 0 ''me@example.org'' 0 1
                              demo_world)) = RemoteGetFolders ''acc'' # evs
          \<and> (\<forall>ev \<in> set evs. event_folder ev = None \<or> event_folder ev = Some ''INBOX'')
          \<and> RemoteGetFolders ''acc'' \<notin> set evs)"
proof -
  let ?acc = "\<lparr>id_acc = ''acc'', email = ''me@example.org''\<rparr>"
  have acc: "findAccount (emailAccounts demo_props) ''me@example.org'' = Some ?acc"
    by (simp add: findAccount_def demo_props_def)
  have fs: "EmailService_getFolders sent_service (id_acc ?acc) = Inr sent_folders"
    by (simp add: EmailService_getFolders_def ImapService_getFolders_def sent_service_def)
  have nt: "toUpperCase ''Sent'' \<noteq> ''TRASH''" by (simp add: upper_sent)
  have found: "(case find (\<lambda>g. toUpperCase (name_fld g) = toUpperCase ''Sent''
                          \<or> toUpperCase (name_fld g) \<in> set (synonyms (toUpperCase ''Sent'')))
                    sent_folders of
              None \<Rightarrow> ''Sent'' | Some g \<Rightarrow> name_fld g) = ''Sent Messages''"
    by (simp add: sent_folders_def demo_folder_def upper_sent upper_inbox upper_sent_messages
        synonyms_def)
  have inbox: "actualFolderName (folder_prop demo_props) sent_folders = ''INBOX''"
    by (simp add: demo_props_def sent_folders_def demo_folder_def upper_inbox folder_matches_def)
  note res = folder_alias_resolution[where fld = "''Sent''" and fs = sent_folders
        and p = demo_props and acct = "''me@example.org''" and es = sent_service
        and acc = ?acc and now = 0 and knownTotal = 0 and page = 1 and w = demo_world,
        OF acc fs, unfolded found inbox]
  have r: "actualFolderName ''Sent'' sent_folders = ''Sent Messages''"
    by (rule res[THEN conjunct1])
  have "actualFolderName (actualFolderName ''Sent'' sent_folders) sent_folders =
             actualFolderName ''Sent'' sent_folders"
    by (rule res[THEN conjunct2, THEN conjunct1, rule_format, OF nt])
  then have st: "actualFolderName ''Sent Messages'' sent_folders = ''Sent Messages''"
    unfolding r .
  from res[THEN conjunct2, THEN conjunct2] r st show ?thesis by (simp add: demo_world_def)
qed

text \<open>
  C8, as it is stated, fails: for an account that reports both \<open>Sent Messages\<close> and
  \<open>Sent Mail\<close>, the request \<open>Sent\<close> resolves to the first of them and the request
  \<open>Sent Mail\<close> to itself; for an account that reports \<open>Deleted Items\<close> before
  \<open>Deleted\<close>, the request \<open>Trash\<close> resolves to \<open>Deleted\<close> and the request \<open>Deleted\<close>
  to \<open>Deleted Items\<close>.
\<close>

theorem folder_alias_counterexample:
  "actualFolderName ''Sent'' sent_folders \<noteq> actualFolderName ''Sent Mail'' sent_folders
   \<and> actualFolderName ''Trash'' trash_folders = ''Deleted''
   \<and> actualFolderName ''Deleted'' trash_folders = ''Deleted Items''"
  by (simp add: sent_folders_def trash_folders_def demo_folder_def upper_sent upper_sent_messages
        upper_sent_mail upper_inbox upper_trash upper_deleted upper_deleted_items
        folder_matches_def)

subsection \<open>Initial load\<close>

lemma mod_500_50: "(n::nat) mod 500 = 50 \<Longrightarrow> n mod 1000 \<noteq> 0"
proof
  assume a: "n mod 500 = 50" and b: "n mod 1000 = 0"
  have "n mod 1000 mod 500 = n mod 500" by (rule mod_mod_cancel) simp
  with a b show False by simp
qed

lemma int_mod_1000: "int n = T \<Longrightarrow> T mod 1000 \<noteq> 0 \<Longrightarrow> n mod 1000 \<noteq> 0"
proof
  assume a: "int n = T" "T mod 1000 \<noteq> 0" and b: "n mod 1000 = 0"
  have "int (n mod 1000) = int n mod 1000" by (simp add: zmod_int)
  with a b show False by simp
qed

lemma backfill_no_flush:
  "(\<And>s e. 1 \<le> s \<Longrightarrow> s \<le> e \<Longrightarrow>
             \<exists>ms. EmailService_getMessages es accId fld 500 (Some (Closed s e)) = Inr ms
                \<and> int (length ms) = e - s + 1) \<Longrightarrow>
   T mod 1000 \<noteq> 0 \<Longrightarrow>
   int (length allMessages) + max 0 endS = T \<Longrightarrow>
   (endS > 0 \<Longrightarrow> length allMessages mod 500 = 50) \<Longrightarrow>
   \<exists>all' a' rest. backfill es now accId fld endS allMessages a = ((all', a'), None)
            \<and> trace a' = trace a @ rest
            \<and> (\<forall>ev \<in> set rest. \<exists>s e. ev = RemoteGetMessages accId fld 500 (Closed s e))
            \<and> (endS > 0 \<longrightarrow> rest \<noteq> []
                  \<and> (\<exists>e. last rest = RemoteGetMessages accId fld 500 (Closed 1 e)))
            \<and> int (length all') = T \<and> store a' = store a
            \<and> refreshTrigger a' = refreshTrigger a"
proof (induction es now accId fld endS allMessages a rule: backfill.induct)
  case (1 es now accId fld endS allMessages a)
  show ?case
  proof (cases "endS > 0")
    case False
    then show ?thesis
      using "1.prems" by (subst backfill.simps) simp
  next
    case True
    let ?startS = "max 1 (endS - 500 + 1)"
    let ?a1 = "log_event (RemoteGetMessages accId fld 500 (Closed ?startS endS)) a"
    from "1.prems"(1)[of ?startS endS] True obtain ms where
      ms: "EmailService_getMessages es accId fld 500 (Some (Closed ?startS endS)) = Inr ms"
        "int (length ms) = endS - ?startS + 1" by auto
    let ?all = "allMessages @ ms"
    have len: "int (length ?all) + max 0 (endS - 500) = T"
      using "1.prems"(3) ms(2) True by auto
    have m500: "endS - 500 > 0 \<Longrightarrow> length ?all mod 500 = 50"
    proof -
      assume "endS - 500 > 0"
      then have "length ms = 500" using ms(2) by auto
      then show ?thesis using "1.prems"(4) True by simp
    qed
    have noflush: "length ?all mod 1000 \<noteq> 0"
    proof (cases "endS \<ge> 500")
      case True
      then have "length ms = 500" using ms(2) by auto
      moreover have "length allMessages mod 500 = 50" using "1.prems"(4) \<open>endS > 0\<close> by simp
      ultimately show ?thesis by (intro mod_500_50) simp
    next
      case False
      then have "int (length ?all) = T" using len by simp
      then show ?thesis using "1.prems"(2) by (rule int_mod_1000)
    qed
    have ih: "\<exists>all' a' rest.
         backfill es now accId fld (endS - 500) ?all ?a1 = ((all', a'), None)
       \<and> trace a' = trace ?a1 @ rest
       \<and> (\<forall>ev \<in> set rest. \<exists>s e. ev = RemoteGetMessages accId fld 500 (Closed s e))
       \<and> (endS - 500 > 0 \<longrightarrow> rest \<noteq> []
                  \<and> (\<exists>e. last rest = RemoteGetMessages accId fld 500 (Closed 1 e)))
       \<and> int (length all') = T \<and> store a' = store ?a1
       \<and> refreshTrigger a' = refreshTrigger ?a1"
      using "1.IH"[OF True refl refl ms(1) refl refl "1.prems"(1) "1.prems"(2) len m500] noflush
      by simp
    then obtain all' a' rest where
      r: "backfill es now accId fld (endS - 500) ?all ?a1 = ((all', a'), None)"
         "trace a' = trace ?a1 @ rest"
         "\<forall>ev \<in> set rest. \<exists>s e. ev = RemoteGetMessages accId fld 500 (Closed s e)"
         "endS - 500 > 0 \<longrightarrow> rest \<noteq> []
                  \<and> (\<exists>e. last rest = RemoteGetMessages accId fld 500 (Closed 1 e))"
         "int (length all') = T" "store a' = store ?a1"
         "refreshTrigger a' = refreshTrigger ?a1"
      by blast
    have stop: "rest = []" if "\<not> endS - 500 > 0"
      using that r(1,2) by (subst (asm) backfill.simps) simp
    let ?rest = "RemoteGetMessages accId fld 500 (Closed ?startS endS) # rest"
    have c1: "backfill es now accId fld endS allMessages a = ((all', a'), None)"
      using True ms(1) noflush r(1) by (subst backfill.simps) (simp add: Let_def)
    have c2: "trace a' = trace a @ ?rest"
      using r(2) by (simp add: log_event_def)
    have c3: "\<forall>ev \<in> set ?rest. \<exists>s e. ev = RemoteGetMessages accId fld 500 (Closed s e)"
      using r(3) by simp
    have c4: "\<exists>e. last ?rest = RemoteGetMessages accId fld 500 (Closed 1 e)"
    proof (cases "endS - 500 > 0")
      case True
      then show ?thesis using r(4) by auto
    next
      case False
      then have "?startS = 1" by simp
      then show ?thesis using stop[OF False] by simp
    qed
    have c5: "store a' = store a" using r(6) by (simp add: log_event_def)
    have c6: "refreshTrigger a' = refreshTrigger a" using r(7) by (simp add: log_event_def)
    have c7: "?rest \<noteq> []" by simp
    have "backfill es now accId fld endS allMessages a = ((all', a'), None)
        \<and> trace a' = trace a @ ?rest
        \<and> (\<forall>ev \<in> set ?rest. \<exists>s e. ev = RemoteGetMessages accId fld 500 (Closed s e))
        \<and> (0 < endS \<longrightarrow> ?rest \<noteq> []
              \<and> (\<exists>e. last ?rest = RemoteGetMessages accId fld 500 (Closed 1 e)))
        \<and> int (length all') = T \<and> store a' = store a
        \<and> refreshTrigger a' = refreshTrigger a"
      using c1 c2 c3 c4 c7 r(5) c5 c6 by (intro conjI impI)
    then show ?thesis by (intro exI)
  qed
qed

text \<open>
  C7, at the code. A refresh that finds the cache empty, for a folder of \<open>T\<close> messages,
  first requests the newest 50 sequence numbers, \<open>max(1, T-49):T\<close>, writes that batch to the
  store at once, and then walks backward in requests of 500 down to sequence 1. The walk
  writes the collected messages only when their number is a multiple of 1000: when every
  request returns one message per sequence number and \<open>T\<close> is not a multiple of 1000,
  nothing is written during the walk, however long it is, and all \<open>T\<close> messages are held
  until the refresh ends.
\<close>

theorem initial_load_never_flushes:
  assumes full: "\<forall>n s e. 1 \<le> s \<and> s \<le> e \<longrightarrow>
             (\<exists>ms. EmailService_getMessages es accId fld n (Some (Closed s e)) = Inr ms
                \<and> int (length ms) = e - s + 1)"
    and T: "1 \<le> T" "T mod 1000 \<noteq> 0"
  shows "\<exists>firstBatch rest allMessages a'.
           collectMessages es now accId fld T [] a = ((allMessages, a'), None)
         \<and> trace a' = trace a @ RemoteGetMessages accId fld 50 (Closed (max 1 (T - 49)) T)
                               # CacheUpdateMessages fld accId firstBatch # rest
         \<and> (\<forall>ev \<in> set rest. \<exists>s e. ev = RemoteGetMessages accId fld 500 (Closed s e))
         \<and> (T > 50 \<longrightarrow> rest \<noteq> []
               \<and> (\<exists>e. last rest = RemoteGetMessages accId fld 500 (Closed 1 e)))
         \<and> int (length allMessages) = T
         \<and> store a' = updateMessages (store a) firstBatch fld accId now
         \<and> refreshTrigger a' = Suc (refreshTrigger a)"
proof -
  let ?s = "max 1 (T - 50 + 1)"
  have "1 \<le> ?s \<and> ?s \<le> T" using T by simp
  moreover from full have "1 \<le> ?s \<and> ?s \<le> T \<longrightarrow>
             (\<exists>ms. EmailService_getMessages es accId fld 50 (Some (Closed ?s T)) = Inr ms
                \<and> int (length ms) = T - ?s + 1)"
    by (elim allE)
  ultimately obtain fb where
    fb: "EmailService_getMessages es accId fld 50 (Some (Closed ?s T)) = Inr fb"
        "int (length fb) = T - ?s + 1"
    by blast
  let ?a1 = "log_event (RemoteGetMessages accId fld 50 (Closed ?s T)) a"
  let ?a2 = "(writeMessages now accId fld fb ?a1)\<lparr>refreshTrigger := Suc (refreshTrigger ?a1)\<rparr>"
  have tr2: "trace ?a2 = trace a @ [RemoteGetMessages accId fld 50 (Closed ?s T),
                CacheUpdateMessages fld accId fb]"
    by (simp add: writeMessages_def log_event_def)
  have st2: "store ?a2 = updateMessages (store a) fb fld accId now"
    by (simp add: writeMessages_def log_event_def)
  have rt2: "refreshTrigger ?a2 = Suc (refreshTrigger a)"
    by (simp add: writeMessages_def log_event_def)
  have s49: "max 1 (T - 49) = ?s" by simp
  show ?thesis
  proof (cases "?s - 1 > 0")
    case False
    then have "int (length fb) = T" using fb(2) by simp
    moreover have "collectMessages es now accId fld T [] a = ((fb, ?a2), None)"
      using T False fb(1) by (simp add: collectMessages_def initialLoad_def Let_def)
    moreover have "\<not> T > 50" using False by simp
    ultimately have "collectMessages es now accId fld T [] a = ((fb, ?a2), None)
         \<and> trace ?a2 = trace a @ RemoteGetMessages accId fld 50 (Closed (max 1 (T - 49)) T)
                               # CacheUpdateMessages fld accId fb # []
         \<and> (\<forall>ev \<in> set []. \<exists>s e. ev = RemoteGetMessages accId fld 500 (Closed s e))
         \<and> (T > 50 \<longrightarrow> [] \<noteq> []
               \<and> (\<exists>e. last [] = RemoteGetMessages accId fld 500 (Closed 1 e)))
         \<and> int (length fb) = T
         \<and> store ?a2 = updateMessages (store a) fb fld accId now
         \<and> refreshTrigger ?a2 = Suc (refreshTrigger a)"
      using tr2 st2 rt2 unfolding s49 by simp
    then show ?thesis by (intro exI)
  next
    case True
    then have l50: "length fb = 50" using fb(2) by auto
    have inv: "int (length fb) + max 0 (?s - 1) = T" using True l50 by auto
    have full500: "\<And>s e. 1 \<le> s \<Longrightarrow> s \<le> e \<Longrightarrow>
             \<exists>ms. EmailService_getMessages es accId fld 500 (Some (Closed s e)) = Inr ms
                \<and> int (length ms) = e - s + 1"
      using full by blast
    have m50: "length fb mod 500 = 50" using l50 by simp
    from backfill_no_flush[of es accId fld T fb "?s - 1" now ?a2, OF full500 T(2) inv m50]
    obtain all' a' rest where
      r: "backfill es now accId fld (?s - 1) fb ?a2 = ((all', a'), None)"
         "trace a' = trace ?a2 @ rest"
         "\<forall>ev \<in> set rest. \<exists>s e. ev = RemoteGetMessages accId fld 500 (Closed s e)"
         "?s - 1 > 0 \<longrightarrow> rest \<noteq> []
                  \<and> (\<exists>e. last rest = RemoteGetMessages accId fld 500 (Closed 1 e))"
         "int (length all') = T" "store a' = store ?a2"
         "refreshTrigger a' = refreshTrigger ?a2"
      by blast
    have T50: "T > 50" using True by simp
    have "collectMessages es now accId fld T [] a = ((all', a'), None)"
      using T T50 fb(1) r(1) by (simp add: collectMessages_def initialLoad_def Let_def)
    moreover have "trace a' = trace a @ RemoteGetMessages accId fld 50 (Closed ?s T)
                               # CacheUpdateMessages fld accId fb # rest"
      using tr2 r(2) by simp
    moreover have "store a' = updateMessages (store a) fb fld accId now"
      using st2 r(6) by simp
    moreover have "refreshTrigger a' = Suc (refreshTrigger a)"
      using rt2 r(7) by simp
    ultimately have "collectMessages es now accId fld T [] a = ((all', a'), None)
         \<and> trace a' = trace a @ RemoteGetMessages accId fld 50 (Closed (max 1 (T - 49)) T)
                               # CacheUpdateMessages fld accId fb # rest
         \<and> (\<forall>ev \<in> set rest. \<exists>s e. ev = RemoteGetMessages accId fld 500 (Closed s e))
         \<and> (T > 50 \<longrightarrow> rest \<noteq> []
               \<and> (\<exists>e. last rest = RemoteGetMessages accId fld 500 (Closed 1 e)))
         \<and> int (length all') = T
         \<and> store a' = updateMessages (store a) fb fld accId now
         \<and> refreshTrigger a' = Suc (refreshTrigger a)"
      using r(3,4,5) True unfolding s49 by simp
    then show ?thesis by (intro exI)
  qed
qed


lemma full_service_full:
  "\<forall>n s e. 1 \<le> s \<and> s \<le> e \<longrightarrow>
     (\<exists>ms. EmailService_getMessages full_service ''acc'' ''INBOX'' n (Some (Closed s e)) = Inr ms
        \<and> int (length ms) = e - s + 1)"
  by (simp add: EmailService_getMessages_def ImapService_getMessages_def full_service_def
      full_imap_def fetchBySequence_def sort_by_date_desc_def)

theorem initial_load_never_flushes_witness:
  "\<exists>firstBatch rest allMessages a'.
      collectMessages full_service 0 ''acc'' ''INBOX'' 2050 [] demo_app = ((allMessages, a'), None)
    \<and> trace a' = RemoteGetMessages ''acc'' ''INBOX'' 50 (Closed 2001 2050)
                    # CacheUpdateMessages ''INBOX'' ''acc'' firstBatch # rest
    \<and> (\<forall>ev \<in> set rest. \<exists>s e. ev = RemoteGetMessages ''acc'' ''INBOX'' 500 (Closed s e))
    \<and> int (length allMessages) = 2050"
proof -
  have tr: "trace demo_app = []" by (simp add: demo_app_def)
  from initial_load_never_flushes[where es = full_service and accId = "''acc''" and fld = "''INBOX''"
      and T = 2050 and now = 0 and a = demo_app, OF full_service_full]
  obtain firstBatch rest allMessages a' where
    "collectMessages full_service 0 ''acc'' ''INBOX'' 2050 [] demo_app = ((allMessages, a'), None)"
    "trace a' = trace demo_app @ RemoteGetMessages ''acc'' ''INBOX'' 50 (Closed (max 1 (2050 - 49)) 2050)
                    # CacheUpdateMessages ''INBOX'' ''acc'' firstBatch # rest"
    "\<forall>ev \<in> set rest. \<exists>s e. ev = RemoteGetMessages ''acc'' ''INBOX'' 500 (Closed s e)"
    "int (length allMessages) = 2050"
    by auto
  then have "collectMessages full_service 0 ''acc'' ''INBOX'' 2050 [] demo_app = ((allMessages, a'), None)
    \<and> trace a' = RemoteGetMessages ''acc'' ''INBOX'' 50 (Closed 2001 2050)
                    # CacheUpdateMessages ''INBOX'' ''acc'' firstBatch # rest
    \<and> (\<forall>ev \<in> set rest. \<exists>s e. ev = RemoteGetMessages ''acc'' ''INBOX'' 500 (Closed s e))
    \<and> int (length allMessages) = 2050"
    using tr by simp
  then show ?thesis by (intro exI)
qed

subsection \<open>Steady-state merge\<close>












lemma existingUIDs_iff: "u \<in> existingUIDs xs \<longleftrightarrow> (\<exists>x \<in> set xs. uid x = Some u)"
  by (induction xs) (auto simp: existingUIDs_def List.map_filter_def)

lemma truthy_uid_iff: "truthy_uid m \<longleftrightarrow> (\<exists>u. uid m = Some u \<and> u \<noteq> 0)"
  by (cases "uid m") (auto simp: truthy_uid_def)

lemma truthy_uids_iff: "u \<in> truthy_uids xs \<longleftrightarrow> u \<noteq> 0 \<and> (\<exists>x \<in> set xs. uid x = Some u)"
  by (auto simp: truthy_uids_def image_iff) metis

lemma existingUIDs_truthy:
  assumes "\<forall>m \<in> set xs. truthy_uid m"
  shows "existingUIDs xs = truthy_uids xs"
proof (rule set_eqI)
  fix u
  show "u \<in> existingUIDs xs \<longleftrightarrow> u \<in> truthy_uids xs"
    using assms unfolding existingUIDs_iff truthy_uids_iff truthy_uid_iff by fastforce
qed














subsection \<open>Writing messages and reading them back\<close>

lemma messages_fold_insert_attachment:
  "messages (fold (\<lambda>att. insert_attachment (f att)) as db) = messages db
   \<and> messages_seq (fold (\<lambda>att. insert_attachment (f att)) as db) = messages_seq db
   \<and> folders (fold (\<lambda>att. insert_attachment (f att)) as db) = folders db
   \<and> foreign_keys (fold (\<lambda>att. insert_attachment (f att)) as db) = foreign_keys db"
  by (induction as arbitrary: db) (simp_all add: insert_attachment_def Let_def)

lemma upsert_message_messages:
  assumes "upsert_message folderId accId now msg db = Some db1"
  shows "\<exists>u. uid msg = Some u
     \<and> messages db1 = filter (\<lambda>r. \<not> same_key u folderId accId r) (messages db) @
          [(message_row msg u folderId accId now)\<lparr>row_id := Suc (messages_seq db)\<rparr>]
     \<and> messages_seq db1 = Suc (messages_seq db)
     \<and> folders db1 = folders db \<and> foreign_keys db1 = foreign_keys db"
proof (cases "uid msg")
  case None
  then show ?thesis using assms by (simp add: upsert_message_def)
next
  case (Some u)
  have k: "row_uid (message_row msg u folderId accId now) = u"
     "folder_id (message_row msg u folderId accId now) = folderId"
     "account_id (message_row msg u folderId accId now) = accId"
    by (simp_all add: message_row_def)
  show ?thesis
    using assms Some
    by (cases "attachments msg")
       (auto simp: upsert_message_def Let_def messages_fold_insert_attachment
          insert_or_replace_message_def delete_messages_def delete_attachments_def k)
qed

lemma upsert_all_total:
  "\<forall>x \<in> set msgs. uid x \<noteq> None \<Longrightarrow> \<exists>db'. upsert_all folderId accId now msgs db = Some db'"
proof (induction msgs arbitrary: db)
  case Nil
  then show ?case by simp
next
  case (Cons x xs)
  then obtain u where u: "uid x = Some u" by auto
  then obtain db1 where d: "upsert_message folderId accId now x db = Some db1"
    by (simp add: upsert_message_def Let_def)
  from Cons.IH[of db1] Cons.prems obtain db' where "upsert_all folderId accId now xs db1 = Some db'"
    by auto
  with d show ?case by simp
qed

lemma upsert_all_keeps_row:
  "upsert_all folderId accId now msgs db = Some db' \<Longrightarrow>
   r \<in> set (messages db) \<Longrightarrow>
   Some (row_uid r) \<notin> uid ` set msgs \<Longrightarrow>
   r \<in> set (messages db')"
proof (induction msgs arbitrary: db)
  case Nil
  then show ?case by simp
next
  case (Cons x xs)
  from Cons.prems(1) obtain db1 where
    d: "upsert_message folderId accId now x db = Some db1"
       "upsert_all folderId accId now xs db1 = Some db'"
    by (auto split: option.splits)
  from upsert_message_messages[OF d(1)] obtain u where
    u: "uid x = Some u"
       "messages db1 = filter (\<lambda>r. \<not> same_key u folderId accId r) (messages db) @
          [(message_row x u folderId accId now)\<lparr>row_id := Suc (messages_seq db)\<rparr>]"
    by blast
  have "row_uid r \<noteq> u" using Cons.prems(3) u(1) by (auto simp: image_iff)
  then have "r \<in> set (messages db1)"
    using Cons.prems(2) u(2) by (simp add: same_key_def)
  moreover have "Some (row_uid r) \<notin> uid ` set xs" using Cons.prems(3) by auto
  ultimately show ?case using Cons.IH[OF d(2)] by blast
qed

lemma upsert_all_writes_row:
  "upsert_all folderId accId now msgs db = Some db' \<Longrightarrow>
   m \<in> set msgs \<Longrightarrow> uid m = Some u \<Longrightarrow> \<forall>x \<in> set msgs. uid x = uid m \<longrightarrow> x = m \<Longrightarrow>
   \<exists>n. (message_row m u folderId accId now)\<lparr>row_id := n\<rparr> \<in> set (messages db')"
proof (induction msgs arbitrary: db)
  case Nil
  then show ?case by simp
next
  case (Cons x xs)
  from Cons.prems(1) obtain db1 where
    d: "upsert_message folderId accId now x db = Some db1"
       "upsert_all folderId accId now xs db1 = Some db'"
    by (auto split: option.splits)
  have only: "\<forall>y \<in> set xs. uid y = uid m \<longrightarrow> y = m" using Cons.prems(4) by simp
  show ?case
  proof (cases "m \<in> set xs")
    case True
    from Cons.IH[OF d(2) True Cons.prems(3) only] show ?thesis .
  next
    case False
    then have xm: "x = m" using Cons.prems(2) by simp
    from upsert_message_messages[OF d(1)] xm Cons.prems(3)
    have in1: "(message_row m u folderId accId now)\<lparr>row_id := Suc (messages_seq db)\<rparr>
                 \<in> set (messages db1)" by auto
    have "Some u \<notin> uid ` set xs"
    proof
      assume "Some u \<in> uid ` set xs"
      then obtain y where y: "y \<in> set xs" "uid y = Some u" by (auto simp: image_iff)
      with only Cons.prems(3) have "y = m" by simp
      with y(1) False show False by simp
    qed
    then have "Some (row_uid ((message_row m u folderId accId now)\<lparr>row_id := Suc (messages_seq db)\<rparr>))
                 \<notin> uid ` set xs" by (simp add: message_row_def)
    from upsert_all_keeps_row[OF d(2) in1 this] show ?thesis by blast
  qed
qed

lemma limit_offset_nth:
  assumes "i < length xs" "0 \<le> ofs" "ofs \<le> int i" "int i < ofs + lmt"
  shows "i - nat ofs < length (limit_offset lmt ofs xs)
       \<and> limit_offset lmt ofs xs ! (i - nat ofs) = xs ! i"
proof -
  have a: "nat ofs \<le> i" using assms by linarith
  have b: "i - nat ofs < nat lmt" using assms by linarith
  have c: "\<not> lmt < 0" using assms by linarith
  show ?thesis using assms(1) a b c by (simp add: limit_offset_def Let_def)
qed

lemma split_join:
  "fs \<noteq> [] \<Longrightarrow> \<forall>f \<in> set fs. c \<notin> set f \<Longrightarrow> split_on c (join_with c fs) = fs"
proof (induction c fs rule: join_with.induct)
  case (1 c)
  then show ?case by simp
next
  case (2 c x)
  then show ?case by (induction x) (auto split: list.splits)
next
  case (3 c x y ys)
  then have ih: "split_on c (join_with c (y # ys)) = y # ys" by simp
  from 3(3) have "c \<notin> set x" by simp
  then show ?case using ih by (induction x) (auto split: list.splits)
qed

lemma join_nonempty:
  "fs \<noteq> [] \<Longrightarrow> \<forall>f \<in> set fs. f \<noteq> [] \<Longrightarrow> join_with c fs \<noteq> []"
  by (induction c fs rule: join_with.induct) auto


text \<open>
  C4, as the code has it. A message \<open>m\<close> written by \<open>updateMessages\<close> to an initialised
  store, in a list in which every message has a UID and no other message has the UID of
  \<open>m\<close>, has a row in the date order of its folder; every page read by \<open>getCachedMessages\<close> whose window
  covers that row returns, at the row's place, a record with the UID and the date of the
  message, with its subject when that is not empty and \<open>(No subject)\<close> otherwise, and with
  its flags when none of them is empty or contains a comma.
\<close>

theorem cache_round_trip:
  assumes cs: "cs = Some db"
    and uids: "\<forall>x \<in> set msgs. uid x \<noteq> None"
    and m: "m \<in> set msgs" "uid m = Some u"
    and only: "\<forall>x \<in> set msgs. uid x = uid m \<longrightarrow> x = m"
    and cs': "cs' = updateMessages cs msgs folderId accId now"
  shows "\<exists>i. \<forall>lmt ofs. 0 \<le> ofs \<and> ofs \<le> int i \<and> int i < ofs + lmt \<longrightarrow>
           i - nat ofs < length (getCachedMessages cs' folderId accId lmt ofs)
         \<and> (let r = getCachedMessages cs' folderId accId lmt ofs ! (i - nat ofs) in
              uid r = Some u \<and> date r = date m
            \<and> subject r = (if subject m = [] then ''(No subject)'' else subject m)
            \<and> ((\<forall>f \<in> set (flags m). f \<noteq> [] \<and> CHR '','' \<notin> set f) \<longrightarrow> flags r = flags m))"
proof -
  from upsert_all_total[OF uids] obtain db' where
    db': "upsert_all folderId accId now msgs db = Some db'" by blast
  then have c: "cs' = Some db'" by (simp add: cs' cs updateMessages_def)
  from upsert_all_writes_row[OF db' m only] obtain n where
    row: "(message_row m u folderId accId now)\<lparr>row_id := n\<rparr> \<in> set (messages db')" by blast
  let ?r0 = "(message_row m u folderId accId now)\<lparr>row_id := n\<rparr>"
  let ?rows = "order_by_date_desc (filter (in_folder folderId accId) (messages db'))"
  have "in_folder folderId accId ?r0" by (simp add: in_folder_def message_row_def)
  with row have "?r0 \<in> set ?rows" by (simp add: order_by_date_desc_def)
  then obtain i where i: "i < length ?rows" "?rows ! i = ?r0" by (auto simp: in_set_conv_nth)
  have fl: "(\<forall>f \<in> set (flags m). f \<noteq> [] \<and> CHR '','' \<notin> set f) \<Longrightarrow>
        (if join_with CHR '','' (flags m) \<noteq> [] then split_on CHR '','' (join_with CHR '','' (flags m))
         else []) = flags m"
  proof (cases "flags m = []")
    case True
    then show ?thesis by simp
  next
    case False
    assume a: "\<forall>f \<in> set (flags m). f \<noteq> [] \<and> CHR '','' \<notin> set f"
    then have "join_with CHR '','' (flags m) \<noteq> []" using False by (intro join_nonempty) auto
    moreover have "split_on CHR '','' (join_with CHR '','' (flags m)) = flags m"
      using False a by (intro split_join) auto
    ultimately show ?thesis by simp
  qed
  have "i - nat ofs < length (getCachedMessages cs' folderId accId lmt ofs)
         \<and> (let r = getCachedMessages cs' folderId accId lmt ofs ! (i - nat ofs) in
              uid r = Some u \<and> date r = date m
            \<and> subject r = (if subject m = [] then ''(No subject)'' else subject m)
            \<and> ((\<forall>f \<in> set (flags m). f \<noteq> [] \<and> CHR '','' \<notin> set f) \<longrightarrow> flags r = flags m))"
    if w: "0 \<le> ofs" "ofs \<le> int i" "int i < ofs + lmt" for lmt ofs
  proof -
    from limit_offset_nth[OF i(1) w] have
      n: "i - nat ofs < length (limit_offset lmt ofs ?rows)"
         "limit_offset lmt ofs ?rows ! (i - nat ofs) = ?r0" using i(2) by simp_all
    have g: "getCachedMessages cs' folderId accId lmt ofs ! (i - nat ofs) =
        cachedMessageToEmailMessage ?r0
          (filter (att_of (row_uid ?r0) folderId accId) (attachment_rows db'))"
      using n by (simp add: c getCachedMessages_def)
    have l: "i - nat ofs < length (getCachedMessages cs' folderId accId lmt ofs)"
      using n(1) by (simp add: c getCachedMessages_def)
    have f1: "uid (cachedMessageToEmailMessage ?r0 as) = Some u"
         "date (cachedMessageToEmailMessage ?r0 as) = date m"
         "subject (cachedMessageToEmailMessage ?r0 as) =
            (if subject m = [] then ''(No subject)'' else subject m)"
         "flags (cachedMessageToEmailMessage ?r0 as) =
            (if join_with CHR '','' (flags m) \<noteq> []
             then split_on CHR '','' (join_with CHR '','' (flags m)) else [])" for as
      by (simp_all add: cachedMessageToEmailMessage_def message_row_def or_else_def)
    show ?thesis
      unfolding g Let_def f1 using l fl by blast
  qed
  then show ?thesis by blast
qed

theorem cache_round_trip_witness:
  "\<exists>i. \<forall>lmt ofs. 0 \<le> ofs \<and> ofs \<le> int i \<and> int i < ofs + lmt \<longrightarrow>
      i - nat ofs < length (getCachedMessages
          (updateMessages (Some (demo_db True))
             [demo_msg 2 20, demo_msg 2 30, (demo_msg 1 10)\<lparr>flags := [seen_flag, ''Flagged'']\<rparr>]
             ''INBOX'' ''acc'' 5)
          ''INBOX'' ''acc'' lmt ofs)
    \<and> (let r = getCachedMessages
          (updateMessages (Some (demo_db True))
             [demo_msg 2 20, demo_msg 2 30, (demo_msg 1 10)\<lparr>flags := [seen_flag, ''Flagged'']\<rparr>]
             ''INBOX'' ''acc'' 5)
          ''INBOX'' ''acc'' lmt ofs ! (i - nat ofs) in
         uid r = Some 1 \<and> date r = 10 \<and> subject r = ''s'' \<and> flags r = [seen_flag, ''Flagged''])"
  using cache_round_trip[where cs = "Some (demo_db True)" and db = "demo_db True"
      and msgs = "[demo_msg 2 20, demo_msg 2 30, (demo_msg 1 10)\<lparr>flags := [seen_flag, ''Flagged'']\<rparr>]"
      and m = "(demo_msg 1 10)\<lparr>flags := [seen_flag, ''Flagged'']\<rparr>" and u = 1
      and folderId = "''INBOX''" and accId = "''acc''" and now = 5, OF refl _ _ _ _ refl]
  by (simp add: demo_msg_def seen_flag_def)

text \<open>
  C4, as it is stated, fails for a message without a subject: it is read back with the
  subject \<open>(No subject)\<close>.
\<close>

theorem cache_round_trip_counterexample:
  "map subject (getCachedMessages
      (updateMessages (Some (empty_database True)) [(demo_msg 1 10)\<lparr>subject := []\<rparr>]
         ''INBOX'' ''acc'' 5) ''INBOX'' ''acc'' 50 0) = [''(No subject)'']
   \<and> subject ((demo_msg 1 10)\<lparr>subject := []\<rparr>) = []"
  by (simp add: updateMessages_def upsert_message_def insert_or_replace_message_def
      delete_messages_def delete_attachments_def empty_database_def demo_msg_def Let_def
      getCachedMessages_def limit_offset_def order_by_date_desc_def in_folder_def same_key_def
      message_row_def cachedMessageToEmailMessage_def or_else_def)

subsection \<open>Refreshing twice\<close>


lemma split_on_nonempty: "split_on c s \<noteq> []"
  by (induction s) (auto split: list.splits)






lemma or_else_idem: "d \<noteq> [] \<Longrightarrow> or_else (or_else s d) d = or_else s d"
  by (simp add: or_else_def)




lemma read_back_date: "date (read_back f a m) = date m"
  by (cases "uid m") (simp_all add: read_back_def cachedMessageToEmailMessage_def message_row_def)






lemma read_back_references:
  "uid m = Some u \<Longrightarrow> references (read_back f a m) = None \<or> references (read_back f a m) = Some []"
  by (simp add: read_back_def cachedMessageToEmailMessage_def)






































end
